theory Spec2Isabelle
  imports Main
begin

section \<open>Time values and the calendar of the Date object\<close>

text \<open>
  A JavaScript Date holds a time value: the number of milliseconds since
  1970-01-01T00:00:00. The time value is modelled as an \<open>int\<close>. The calendar
  functions below are the abstract operations of ECMAScript (Day, TimeWithinDay,
  DaysInYear, DayFromYear, YearFromTime, InLeapYear, MonthFromTime, DateFromTime,
  WeekDay, MakeDay, MakeDate) on which getDate, setDate, setMonth and setFullYear
  are built. The local time zone is taken to be UTC with no daylight saving, so
  LocalTime and UTC are the identity, and time values are taken inside the range
  on which TimeClip is the identity, except where a Date is built from a number
  computed out of the text field recurringWeeks.
\<close>

definition msPerDay :: int where
  "msPerDay = 86400000"

definition Day :: "int \<Rightarrow> int" where
  "Day t = t div msPerDay"

definition TimeWithinDay :: "int \<Rightarrow> int" where
  "TimeWithinDay t = t mod msPerDay"

definition DaysInYear :: "int \<Rightarrow> int" where
  "DaysInYear y =
     (if y mod 4 \<noteq> 0 then 365
      else if y mod 100 \<noteq> 0 then 366
      else if y mod 400 \<noteq> 0 then 365
      else 366)"

definition DayFromYear :: "int \<Rightarrow> int" where
  "DayFromYear y =
     365 * (y - 1970) + (y - 1969) div 4 - (y - 1901) div 100 + (y - 1601) div 400"

text \<open>
  ECMAScript specifies YearFromTime as the largest year whose first day is not
  after the given day. The computation starts from the estimate given by the
  mean length of a year (146097 days in 400 years), which is off by at most one,
  and corrects it; lemma \<open>YearFromDay_bounds\<close> shows that it meets the
  specification.
\<close>

definition YearFromDay :: "int \<Rightarrow> int" where
  "YearFromDay d =
     (let y = 1970 + (400 * d) div 146097
      in if d < DayFromYear y then y - 1
         else if DayFromYear (y + 1) \<le> d then y + 1
         else y)"

definition YearFromTime :: "int \<Rightarrow> int" where
  "YearFromTime t = YearFromDay (Day t)"

definition leapDays :: "int \<Rightarrow> int" where
  "leapDays y = (if DaysInYear y = 366 then 1 else 0)"

definition InLeapYear :: "int \<Rightarrow> int" where
  "InLeapYear t = leapDays (YearFromTime t)"

definition DayWithinYear :: "int \<Rightarrow> int" where
  "DayWithinYear t = Day t - DayFromYear (YearFromTime t)"

text \<open>Number of days of a year before its month \<open>m\<close> (0 is January).\<close>

definition monthStart :: "int \<Rightarrow> int \<Rightarrow> int" where
  "monthStart l m =
     (if m = 0 then 0
      else if m = 1 then 31
      else if m = 2 then 59 + l
      else if m = 3 then 90 + l
      else if m = 4 then 120 + l
      else if m = 5 then 151 + l
      else if m = 6 then 181 + l
      else if m = 7 then 212 + l
      else if m = 8 then 243 + l
      else if m = 9 then 273 + l
      else if m = 10 then 304 + l
      else 334 + l)"

definition monthOfYearDay :: "int \<Rightarrow> int \<Rightarrow> int" where
  "monthOfYearDay l d =
     (if d < 31 then 0
      else if d < 59 + l then 1
      else if d < 90 + l then 2
      else if d < 120 + l then 3
      else if d < 151 + l then 4
      else if d < 181 + l then 5
      else if d < 212 + l then 6
      else if d < 243 + l then 7
      else if d < 273 + l then 8
      else if d < 304 + l then 9
      else if d < 334 + l then 10
      else 11)"

definition MonthFromTime :: "int \<Rightarrow> int" where
  "MonthFromTime t = monthOfYearDay (InLeapYear t) (DayWithinYear t)"

definition DateFromTime :: "int \<Rightarrow> int" where
  "DateFromTime t =
     DayWithinYear t - monthStart (InLeapYear t) (MonthFromTime t) + 1"

definition WeekDay :: "int \<Rightarrow> int" where
  "WeekDay t = (Day t + 4) mod 7"

text \<open>
  ECMAScript specifies MakeDay through the day on which the month \<open>mn\<close> of the
  year \<open>ym\<close> begins; here that day is computed from \<open>DayFromYear\<close> and
  \<open>monthStart\<close>, and lemma \<open>fields_MakeDate\<close> shows that it has that year, that
  month and the date asked for.
\<close>

definition MakeDay :: "int \<Rightarrow> int \<Rightarrow> int \<Rightarrow> int" where
  "MakeDay year month date =
     (let ym = year + month div 12; mn = month mod 12
      in DayFromYear ym + monthStart (leapDays ym) mn + date - 1)"

definition MakeDate :: "int \<Rightarrow> int \<Rightarrow> int" where
  "MakeDate day time = day * msPerDay + time"

subsection \<open>Methods of Date\<close>

definition getDate :: "int \<Rightarrow> int" where
  "getDate t = DateFromTime t"

definition getMonth :: "int \<Rightarrow> int" where
  "getMonth t = MonthFromTime t"

definition getFullYear :: "int \<Rightarrow> int" where
  "getFullYear t = YearFromTime t"

definition setDate :: "int \<Rightarrow> int \<Rightarrow> int" where
  "setDate t dt =
     MakeDate (MakeDay (YearFromTime t) (MonthFromTime t) dt) (TimeWithinDay t)"

text \<open>
  \<open>setMonth\<close> and \<open>setFullYear\<close> take their optional arguments explicitly: the
  call \<open>d.setMonth(m)\<close> of the source is \<open>setMonth d m (getDate d)\<close>, and
  \<open>d.setFullYear(y)\<close> is \<open>setFullYear d y (getMonth d) (getDate d)\<close>.
\<close>

definition setMonth :: "int \<Rightarrow> int \<Rightarrow> int \<Rightarrow> int" where
  "setMonth t m dt = MakeDate (MakeDay (YearFromTime t) m dt) (TimeWithinDay t)"

definition setFullYear :: "int \<Rightarrow> int \<Rightarrow> int \<Rightarrow> int \<Rightarrow> int" where
  "setFullYear t y m dt = MakeDate (MakeDay y m dt) (TimeWithinDay t)"

text \<open>
  \<open>TimeClip\<close> gives the time value of \<open>new Date(v)\<close>: \<open>None\<close> is the Invalid Date
  (time value NaN).
\<close>

definition TimeClip :: "int \<Rightarrow> int option" where
  "TimeClip v = (if 8640000000000000 < \<bar>v\<bar> then None else Some v)"

subsection \<open>Numbers and dates as text\<close>

definition digit_char :: "nat \<Rightarrow> char" where
  "digit_char n = ''0123456789'' ! n"

text \<open>The decimal digits of a number that is not negative.\<close>

function decimalDigits :: "int \<Rightarrow> string" where
  "decimalDigits n =
     (if n < 10 then [digit_char (nat n)]
      else decimalDigits (n div 10) @ [digit_char (nat (n mod 10))])"
  by pat_completeness auto
termination
  by (relation "measure nat") auto

declare decimalDigits.simps [simp del]

definition string_of_int :: "int \<Rightarrow> string" where
  "string_of_int i =
     (if i < 0 then CHR ''-'' # decimalDigits (- i) else decimalDigits i)"

definition addLeadingZeros :: "int \<Rightarrow> nat \<Rightarrow> string" where
  "addLeadingZeros n w =
     (let s = decimalDigits \<bar>n\<bar>
      in (if n < 0 then ''-'' else []) @ replicate (w - length s) CHR ''0'' @ s)"

definition weekdayName :: "int \<Rightarrow> string" where
  "weekdayName w = [''Sun'', ''Mon'', ''Tue'', ''Wed'', ''Thu'', ''Fri'', ''Sat''] ! nat w"

definition monthName :: "int \<Rightarrow> string" where
  "monthName m =
     [''Jan'', ''Feb'', ''Mar'', ''Apr'', ''May'', ''Jun'',
      ''Jul'', ''Aug'', ''Sep'', ''Oct'', ''Nov'', ''Dec''] ! nat m"

text \<open>\<open>Date.prototype.toDateString\<close>, as in \<open>Mon Mar 11 2024\<close>.\<close>

definition toDateString :: "int \<Rightarrow> string" where
  "toDateString t =
     weekdayName (WeekDay t) @ '' '' @ monthName (MonthFromTime t) @ '' ''
       @ addLeadingZeros (DateFromTime t) 2 @ '' ''
       @ addLeadingZeros (YearFromTime t) 4"

text \<open>
  \<open>format(d, 'yyyy-MM-dd')\<close> of date-fns, as in \<open>2024-03-11\<close>: the token \<open>yyyy\<close> is
  the year of the era (the year itself when positive, one minus the year
  otherwise) on at least four digits.
\<close>

definition format_yyyy_MM_dd :: "int \<Rightarrow> string" where
  "format_yyyy_MM_dd t =
     (let signedYear = getFullYear t;
          year = (if 0 < signedYear then signedYear else 1 - signedYear)
      in addLeadingZeros year 4 @ ''-'' @ addLeadingZeros (getMonth t + 1) 2
           @ ''-'' @ addLeadingZeros (getDate t) 2)"

text \<open>
  \<open>parseInt(s)\<close> with no radix: leading white space is dropped, then an optional
  sign, then the prefix \<open>0x\<close> or \<open>0X\<close> selects radix 16, and the longest run of
  digits is read. \<open>None\<close> is NaN (no digit to read). Strings are taken to be
  ASCII, so white space is one of the characters 9 to 13 and 32.
\<close>

definition isWhiteSpace :: "char \<Rightarrow> bool" where
  "isWhiteSpace c = (let n = (of_char c :: nat) in (9 \<le> n \<and> n \<le> 13) \<or> n = 32)"

definition digitValue :: "char \<Rightarrow> nat option" where
  "digitValue c =
     (let n = (of_char c :: nat)
      in if 48 \<le> n \<and> n \<le> 57 then Some (n - 48)
         else if 97 \<le> n \<and> n \<le> 122 then Some (n - 87)
         else if 65 \<le> n \<and> n \<le> 90 then Some (n - 55)
         else None)"

definition isRadixDigit :: "nat \<Rightarrow> char \<Rightarrow> bool" where
  "isRadixDigit R c = (case digitValue c of None \<Rightarrow> False | Some v \<Rightarrow> v < R)"

definition digitsValue :: "nat \<Rightarrow> string \<Rightarrow> nat" where
  "digitsValue R Z = foldl (\<lambda>acc c. acc * R + the (digitValue c)) 0 Z"

definition parseInt :: "string \<Rightarrow> int option" where
  "parseInt inputString =
     (let S = dropWhile isWhiteSpace inputString;
          sign = (if S \<noteq> [] \<and> hd S = CHR ''-'' then - 1 else 1 :: int);
          S1 = (if S \<noteq> [] \<and> (hd S = CHR ''+'' \<or> hd S = CHR ''-'') then tl S else S);
          hex = (take 2 S1 = ''0x'' \<or> take 2 S1 = ''0X'');
          R = (if hex then 16 else 10);
          S2 = (if hex then drop 2 S1 else S1);
          Z = takeWhile (isRadixDigit R) S2
      in if Z = [] then None else Some (sign * int (digitsValue R Z)))"

subsection \<open>The functions of date-fns that the database backend calls\<close>

text \<open>
  \<open>addDays\<close> sets the day of the month to the current one plus the amount;
  \<open>addWeeks\<close> adds seven times as many days. \<open>addMonths\<close> computes the last day
  of the month that lies \<open>amount\<close> months ahead (day 0 of the month after it) and
  returns it when the day of the month of the argument does not exist in that
  month, and the same day of the month in that month otherwise. \<open>addYears\<close>
  adds twelve times as many months.
\<close>

definition addDays :: "int \<Rightarrow> int \<Rightarrow> int" where
  "addDays date amount =
     (if amount = 0 then date else setDate date (getDate date + amount))"

definition addWeeks :: "int \<Rightarrow> int \<Rightarrow> int" where
  "addWeeks date amount = addDays date (amount * 7)"

definition addMonths :: "int \<Rightarrow> int \<Rightarrow> int" where
  "addMonths date amount =
     (if amount = 0 then date
      else
        let dayOfMonth = getDate date;
            endOfDesiredMonth = setMonth date (getMonth date + amount + 1) 0;
            daysInMonth = getDate endOfDesiredMonth
        in if daysInMonth \<le> dayOfMonth then endOfDesiredMonth
           else setFullYear date (getFullYear endOfDesiredMonth)
                  (getMonth endOfDesiredMonth) dayOfMonth)"

definition addYears :: "int \<Rightarrow> int \<Rightarrow> int" where
  "addYears date amount = addMonths date (amount * 12)"

text \<open>
  \<open>isBefore\<close>, and the comparison \<open><\<close> of two Dates: false when the right-hand
  Date is invalid.
\<close>

definition isBefore :: "int \<Rightarrow> int option \<Rightarrow> bool" where
  "isBefore date dateToCompare =
     (case dateToCompare of None \<Rightarrow> False | Some e \<Rightarrow> date < e)"

text \<open>\<open>Math.min\<close> of a time value that may be NaN and one that is not.\<close>

definition Math_min :: "int option \<Rightarrow> int \<Rightarrow> int option" where
  "Math_min a b = (case a of None \<Rightarrow> None | Some x \<Rightarrow> Some (min x b))"

section \<open>The data model (shared/schema.ts)\<close>

text \<open>
  A row of the table \<open>events\<close>. Columns without \<open>notNull\<close> are options; \<open>None\<close>
  stands for null and for a property that an object of the memory backend does
  not have. Timestamps are time values.
\<close>

record Event =
  eid :: string
  title :: string
  description :: "string option"
  startDate :: int
  endDate :: "int option"
  isRecurring :: "bool option"
  recurringPattern :: "string option"
  recurringWeeks :: "string option"
  parentEventId :: "string option"
  originalDate :: "int option"
  createdAt :: "int option"

text \<open>A row of the table \<open>event_exceptions\<close>.\<close>

record EventException =
  xid :: string
  xParentEventId :: string
  exceptionDate :: int
  xType :: string
  modifiedEventId :: "string option"
  xCreatedAt :: "int option"

text \<open>
  \<open>Partial<InsertEvent>\<close>: every field may be missing. The operator \<open>??\<close> treats
  null and a missing field alike, so each field is an option.
\<close>

record PartialInsertEvent =
  uTitle :: "string option"
  uDescription :: "string option"
  uStartDate :: "int option"
  uEndDate :: "int option"
  uIsRecurring :: "bool option"
  uRecurringPattern :: "string option"
  uRecurringWeeks :: "string option"
  uParentEventId :: "string option"
  uOriginalDate :: "int option"

text \<open>The operator \<open>a ?? b\<close>.\<close>

definition nullish :: "'a option \<Rightarrow> 'a \<Rightarrow> 'a" where
  "nullish a b = (case a of None \<Rightarrow> b | Some v \<Rightarrow> v)"

text \<open>
  Truthiness of the values the source tests: a boolean that may be null, and a
  string that may be null (the empty string is falsy).
\<close>

definition truthyBool :: "bool option \<Rightarrow> bool" where
  "truthyBool b = (b = Some True)"

definition truthyString :: "string option \<Rightarrow> bool" where
  "truthyString s = (case s of None \<Rightarrow> False | Some v \<Rightarrow> v \<noteq> [])"

text \<open>
  \<open>Array.prototype.sort\<close> with the comparator that subtracts the start times:
  a stable sort on \<open>startDate\<close>.
\<close>

definition sortByStartDate :: "Event list \<Rightarrow> Event list" where
  "sortByStartDate evs = sort_key startDate evs"

section \<open>The memory backend (MemStorage and EnhancedMemStorage)\<close>

text \<open>
  A JavaScript \<open>Map\<close> keeps its entries in insertion order: \<open>set\<close> on a key that
  is present replaces the value in place, and on a new key appends the entry.
\<close>

type_synonym ('k, 'v) jsmap = "('k \<times> 'v) list"

definition Map_get :: "('k, 'v) jsmap \<Rightarrow> 'k \<Rightarrow> 'v option" where
  "Map_get m k = map_of m k"

fun Map_set :: "('k, 'v) jsmap \<Rightarrow> 'k \<Rightarrow> 'v \<Rightarrow> ('k, 'v) jsmap" where
  "Map_set [] k v = [(k, v)]"
| "Map_set ((k', v') # m) k v =
     (if k' = k then (k, v) # m else (k', v') # Map_set m k v)"

definition Map_has :: "('k, 'v) jsmap \<Rightarrow> 'k \<Rightarrow> bool" where
  "Map_has m k = (k \<in> fst ` set m)"

definition Map_delete :: "('k, 'v) jsmap \<Rightarrow> 'k \<Rightarrow> ('k, 'v) jsmap \<times> bool" where
  "Map_delete m k = (filter (\<lambda>kv. fst kv \<noteq> k) m, Map_has m k)"

definition Map_values :: "('k, 'v) jsmap \<Rightarrow> 'v list" where
  "Map_values m = map snd m"

text \<open>An entry of the exception lists of \<open>EnhancedMemStorage\<close>.\<close>

record MemException =
  mExceptionDate :: int
  mType :: string
  mModifiedEventId :: "string option"

record MemState =
  events :: "(string, Event) jsmap"
  eventExceptions :: "(string, MemException list) jsmap"

definition MemStorage_getEvent :: "MemState \<Rightarrow> string \<Rightarrow> Event option" where
  "MemStorage_getEvent s i = Map_get (events s) i"

definition MemStorage_deleteEvent :: "MemState \<Rightarrow> string \<Rightarrow> MemState \<times> bool" where
  "MemStorage_deleteEvent s i =
     (let r = Map_delete (events s) i in (s\<lparr>events := fst r\<rparr>, snd r))"

definition MemStorage_getRecurrenceInterval :: "string \<Rightarrow> int" where
  "MemStorage_getRecurrenceInterval pattern =
     (if pattern = ''daily'' then 1
      else if pattern = ''weekly'' then 7
      else if pattern = ''monthly'' then 30
      else if pattern = ''yearly'' then 365
      else 7)"

text \<open>
  The body of the loop of \<open>generateRecurringEvents\<close> for the counter \<open>i\<close>: the
  instance it pushes, or nothing for a pattern that the switch does not know.
\<close>

definition MemStorage_recurringEvent :: "Event \<Rightarrow> int \<Rightarrow> Event option" where
  "MemStorage_recurringEvent baseEvent i =
     (let baseDate = startDate baseEvent;
          p = recurringPattern baseEvent;
          newDate =
            (if p = Some ''daily'' then Some (setDate baseDate (getDate baseDate + i))
             else if p = Some ''weekly'' then Some (setDate baseDate (getDate baseDate + i * 7))
             else if p = Some ''monthly'' then
               Some (setMonth baseDate (getMonth baseDate + i) (getDate baseDate))
             else if p = Some ''yearly'' then
               Some (setFullYear baseDate (getFullYear baseDate + i)
                       (getMonth baseDate) (getDate baseDate))
             else None)
      in (case newDate of
           None \<Rightarrow> None
         | Some d \<Rightarrow>
             Some \<lparr> eid = eid baseEvent @ ''-recur-'' @ string_of_int i,
                    title = title baseEvent,
                    description = description baseEvent,
                    startDate = d,
                    endDate = (case endDate baseEvent of
                                 None \<Rightarrow> None
                               | Some e \<Rightarrow> Some (d + (e - baseDate))),
                    isRecurring = isRecurring baseEvent,
                    recurringPattern = recurringPattern baseEvent,
                    recurringWeeks = recurringWeeks baseEvent,
                    parentEventId = None,
                    originalDate = None,
                    createdAt = createdAt baseEvent \<rparr>))"

definition MemStorage_generateRecurringEvents :: "Event \<Rightarrow> int \<Rightarrow> Event list" where
  "MemStorage_generateRecurringEvents baseEvent daysAhead =
     (let pattern = (if truthyString (recurringPattern baseEvent)
                     then the (recurringPattern baseEvent) else ''weekly'');
          n = daysAhead div MemStorage_getRecurrenceInterval pattern
      in List.map_filter (MemStorage_recurringEvent baseEvent) [1 .. n])"

text \<open>
  \<open>MemStorage.getEventsByDateRange\<close>, which \<open>EnhancedMemStorage\<close> inherits
  without overriding it. It does not read \<open>eventExceptions\<close>.
\<close>

definition MemStorage_rangeEvents :: "int \<Rightarrow> int \<Rightarrow> Event \<Rightarrow> Event list" where
  "MemStorage_rangeEvents rangeStart rangeEnd event =
     (if rangeStart \<le> startDate event \<and> startDate event \<le> rangeEnd then [event] else [])
     @ (if truthyBool (isRecurring event) \<and> truthyString (recurringPattern event)
        then filter (\<lambda>recurEvent. rangeStart \<le> startDate recurEvent
                                    \<and> startDate recurEvent \<le> rangeEnd)
               (MemStorage_generateRecurringEvents event 365)
        else [])"

definition MemStorage_getEventsByDateRange :: "MemState \<Rightarrow> int \<Rightarrow> int \<Rightarrow> Event list" where
  "MemStorage_getEventsByDateRange s rangeStart rangeEnd =
     sortByStartDate
       (concat (map (MemStorage_rangeEvents rangeStart rangeEnd) (Map_values (events s))))"

text \<open>
  \<open>EnhancedMemStorage.deleteRecurringInstance\<close>: the exception is pushed on the
  list of the parent id, which is created when missing. The parent is not looked
  up.
\<close>

definition EnhancedMemStorage_pushException ::
  "MemState \<Rightarrow> string \<Rightarrow> MemException \<Rightarrow> MemState" where
  "EnhancedMemStorage_pushException s parentId ex =
     (let m = (if \<not> Map_has (eventExceptions s) parentId
               then Map_set (eventExceptions s) parentId []
               else eventExceptions s)
      in s\<lparr>eventExceptions := Map_set m parentId (the (Map_get m parentId) @ [ex])\<rparr>)"

definition EnhancedMemStorage_deleteRecurringInstance ::
  "MemState \<Rightarrow> string \<Rightarrow> int \<Rightarrow> MemState \<times> bool" where
  "EnhancedMemStorage_deleteRecurringInstance s parentId instanceDate =
     (EnhancedMemStorage_pushException s parentId
        \<lparr> mExceptionDate = instanceDate, mType = ''deleted'', mModifiedEventId = None \<rparr>,
      True)"

text \<open>
  \<open>EnhancedMemStorage.updateRecurringInstance\<close>. The result of \<open>randomUUID()\<close> and
  the current time are arguments.
\<close>

definition EnhancedMemStorage_updateRecurringInstance ::
  "MemState \<Rightarrow> string \<Rightarrow> int \<Rightarrow> string \<Rightarrow> int \<Rightarrow> PartialInsertEvent
     \<Rightarrow> MemState \<times> Event option" where
  "EnhancedMemStorage_updateRecurringInstance s randomUUID now parentId instanceDate updates =
     (case MemStorage_getEvent s parentId of
        None \<Rightarrow> (s, None)
      | Some parentEvent \<Rightarrow>
          let modifiedEvent =
                \<lparr> eid = randomUUID,
                  title = nullish (uTitle updates) (title parentEvent),
                  description =
                    (case uDescription updates of
                       None \<Rightarrow> description parentEvent | Some d \<Rightarrow> Some d),
                  startDate = nullish (uStartDate updates) instanceDate,
                  endDate =
                    (case uEndDate updates of
                       None \<Rightarrow> endDate parentEvent | Some e \<Rightarrow> Some e),
                  isRecurring = Some False,
                  recurringPattern = None,
                  recurringWeeks = None,
                  parentEventId = Some parentId,
                  originalDate = Some instanceDate,
                  createdAt = Some now \<rparr>;
              s1 = s\<lparr>events := Map_set (events s) randomUUID modifiedEvent\<rparr>;
              s2 = EnhancedMemStorage_pushException s1 parentId
                     \<lparr> mExceptionDate = instanceDate, mType = ''modified'',
                       mModifiedEventId = Some randomUUID \<rparr>
          in (s2, Some modifiedEvent))"

text \<open>The stepper of \<open>EnhancedMemStorage\<close>; a pattern that is null is \<open>None\<close>.\<close>

definition EnhancedMemStorage_getNextRecurrenceDate :: "int \<Rightarrow> string option \<Rightarrow> int" where
  "EnhancedMemStorage_getNextRecurrenceDate currentDate pattern =
     (if pattern = Some ''daily'' then setDate currentDate (getDate currentDate + 1)
      else if pattern = Some ''weekly'' then setDate currentDate (getDate currentDate + 7)
      else if pattern = Some ''monthly'' then
        setMonth currentDate (getMonth currentDate + 1) (getDate currentDate)
      else if pattern = Some ''yearly'' then
        setFullYear currentDate (getFullYear currentDate + 1)
          (getMonth currentDate) (getDate currentDate)
      else setDate currentDate (getDate currentDate + 7))"

text \<open>
  The end of the series, shared by the two generators up to the way the weeks
  are added: the end of the window, or the earlier of it and the start plus the
  number of weeks read from \<open>recurringWeeks\<close>. \<open>None\<close> is the Invalid Date.
\<close>

definition EnhancedMemStorage_seriesEndDate :: "Event \<Rightarrow> int \<Rightarrow> int option" where
  "EnhancedMemStorage_seriesEndDate baseEvent rangeEnd =
     (if truthyString (recurringWeeks baseEvent)
         \<and> recurringWeeks baseEvent \<noteq> Some ''indefinite''
      then
        let weeksToAdd = parseInt (the (recurringWeeks baseEvent));
            calculatedEndDate =
              (case weeksToAdd of
                 None \<Rightarrow> None
               | Some w \<Rightarrow> TimeClip (startDate baseEvent + w * 7 * 24 * 60 * 60 * 1000))
        in Math_min calculatedEndDate rangeEnd
      else Some rangeEnd)"

definition EnhancedMemStorage_instance :: "Event \<Rightarrow> int \<Rightarrow> Event" where
  "EnhancedMemStorage_instance baseEvent currentDate =
     (let timeDiff = (case endDate baseEvent of
                        None \<Rightarrow> 0 | Some e \<Rightarrow> e - startDate baseEvent)
      in baseEvent
           \<lparr> eid := eid baseEvent @ ''-recur-'' @ string_of_int currentDate,
             startDate := currentDate,
             endDate := (if 0 < timeDiff then Some (currentDate + timeDiff) else None),
             parentEventId := Some (eid baseEvent),
             originalDate := Some currentDate \<rparr>)"

text \<open>
  The loop of \<open>EnhancedMemStorage.generateRecurringInstances\<close>, with its counter
  of iterations and the bound \<open>maxIterations = 500\<close>. The instances are listed in
  the order in which the source pushes them.
\<close>

definition maxIterations :: nat where
  "maxIterations = 500"

function EnhancedMemStorage_loop ::
  "Event \<Rightarrow> int option \<Rightarrow> string set \<Rightarrow> string set \<Rightarrow> nat \<Rightarrow> int \<Rightarrow> Event list" where
  "EnhancedMemStorage_loop baseEvent seriesEndDate deletedDates modifiedDates
       iterationCount currentDate =
     (if isBefore currentDate seriesEndDate \<and> iterationCount < maxIterations then
        (if toDateString currentDate \<in> deletedDates
            \<or> toDateString currentDate \<in> modifiedDates
         then EnhancedMemStorage_loop baseEvent seriesEndDate deletedDates modifiedDates
                (iterationCount + 1)
                (EnhancedMemStorage_getNextRecurrenceDate currentDate
                   (recurringPattern baseEvent))
         else EnhancedMemStorage_instance baseEvent currentDate
                # EnhancedMemStorage_loop baseEvent seriesEndDate deletedDates modifiedDates
                    (iterationCount + 1)
                    (EnhancedMemStorage_getNextRecurrenceDate currentDate
                       (recurringPattern baseEvent)))
      else [])"
  by pat_completeness auto
termination
  by (relation "measure (\<lambda>(b, e, d, m, i, c). maxIterations - i)") auto

declare EnhancedMemStorage_loop.simps [simp del]

definition EnhancedMemStorage_generateRecurringInstances ::
  "Event \<Rightarrow> int \<Rightarrow> int \<Rightarrow> string set \<Rightarrow> string set \<Rightarrow> Event list" where
  "EnhancedMemStorage_generateRecurringInstances baseEvent rangeStart rangeEnd
       deletedDates modifiedDates =
     EnhancedMemStorage_loop baseEvent
       (EnhancedMemStorage_seriesEndDate baseEvent rangeEnd)
       deletedDates modifiedDates 0 (max (startDate baseEvent) rangeStart)"

text \<open>
  \<open>EnhancedMemStorage.expandRecurringEvents\<close> and \<open>getEvents\<close>; the current time is
  an argument. The window runs from now to 180 days later.
\<close>

definition EnhancedMemStorage_expandOne :: "MemState \<Rightarrow> int \<Rightarrow> int \<Rightarrow> Event \<Rightarrow> Event list" where
  "EnhancedMemStorage_expandOne s now rangeEnd event =
     (if \<not> truthyBool (isRecurring event) then [event]
      else
        let exceptions = (case Map_get (eventExceptions s) (eid event) of
                            None \<Rightarrow> [] | Some xs \<Rightarrow> xs);
            deletedDates =
              set (map (\<lambda>e. toDateString (mExceptionDate e))
                     (filter (\<lambda>e. mType e = ''deleted'') exceptions));
            modifiedDates =
              set (map (\<lambda>e. toDateString (mExceptionDate e))
                     (filter (\<lambda>e. mType e = ''modified'') exceptions))
        in EnhancedMemStorage_generateRecurringInstances event now rangeEnd
             deletedDates modifiedDates)"

definition EnhancedMemStorage_expandRecurringEvents ::
  "MemState \<Rightarrow> int \<Rightarrow> Event list \<Rightarrow> Event list" where
  "EnhancedMemStorage_expandRecurringEvents s now baseEvents =
     (let rangeEnd = now + 6 * 30 * 24 * 60 * 60 * 1000
      in sortByStartDate
           (concat (map (EnhancedMemStorage_expandOne s now rangeEnd) baseEvents)))"

definition EnhancedMemStorage_getEvents :: "MemState \<Rightarrow> int \<Rightarrow> Event list" where
  "EnhancedMemStorage_getEvents s now =
     EnhancedMemStorage_expandRecurringEvents s now (Map_values (events s))"

section \<open>The database backend (SupabaseStorage)\<close>

text \<open>
  The database holds the rows of the two tables. The schema declares \<open>id\<close> as
  the primary key of both, and on \<open>event_exceptions\<close> the columns
  \<open>parent_event_id\<close> and \<open>modified_event_id\<close> as references to \<open>events.id\<close> with
  \<open>onDelete: 'cascade'\<close>. The column \<open>parent_event_id\<close> of \<open>events\<close> is a plain
  \<open>varchar\<close> with no reference. An insert that breaks a constraint fails, and
  the method that issued it rejects with that error.
\<close>

record DbState =
  eventRows :: "Event list"
  exceptionRows :: "EventException list"

datatype DbError = UniqueViolation | ForeignKeyViolation

definition insertEventRow :: "DbState \<Rightarrow> Event \<Rightarrow> DbError + DbState" where
  "insertEventRow s row =
     (if eid row \<in> eid ` set (eventRows s) then Inl UniqueViolation
      else Inr (s\<lparr>eventRows := eventRows s @ [row]\<rparr>))"

definition insertExceptionRow :: "DbState \<Rightarrow> EventException \<Rightarrow> DbError + DbState" where
  "insertExceptionRow s row =
     (if xid row \<in> xid ` set (exceptionRows s) then Inl UniqueViolation
      else if xParentEventId row \<notin> eid ` set (eventRows s) then Inl ForeignKeyViolation
      else if (case modifiedEventId row of
                 None \<Rightarrow> False | Some m \<Rightarrow> m \<notin> eid ` set (eventRows s))
      then Inl ForeignKeyViolation
      else Inr (s\<lparr>exceptionRows := exceptionRows s @ [row]\<rparr>))"

definition SupabaseStorage_getEvent :: "DbState \<Rightarrow> string \<Rightarrow> Event option" where
  "SupabaseStorage_getEvent s i =
     (case filter (\<lambda>e. eid e = i) (eventRows s) of [] \<Rightarrow> None | e # _ \<Rightarrow> Some e)"

text \<open>
  \<open>SupabaseStorage.deleteEvent\<close>: the row is deleted, and with it, by the two
  cascading references, the exceptions whose parent or whose modified event it
  is. The result tells whether a row was deleted.
\<close>

definition SupabaseStorage_deleteEvent :: "DbState \<Rightarrow> string \<Rightarrow> DbState \<times> bool" where
  "SupabaseStorage_deleteEvent s i =
     (s\<lparr> eventRows := filter (\<lambda>e. eid e \<noteq> i) (eventRows s),
         exceptionRows :=
           filter (\<lambda>x. xParentEventId x \<noteq> i \<and> modifiedEventId x \<noteq> Some i)
             (exceptionRows s) \<rparr>,
      i \<in> eid ` set (eventRows s))"

text \<open>
  \<open>SupabaseStorage.deleteRecurringInstance\<close>. The identifier that the database
  generates for the new row and the current time are arguments.
\<close>

definition SupabaseStorage_deleteRecurringInstance ::
  "DbState \<Rightarrow> string \<Rightarrow> int \<Rightarrow> string \<Rightarrow> int \<Rightarrow> DbError + (DbState \<times> bool)" where
  "SupabaseStorage_deleteRecurringInstance s newId now parentId instanceDate =
     (case insertExceptionRow s
             \<lparr> xid = newId, xParentEventId = parentId, exceptionDate = instanceDate,
               xType = ''deleted'', modifiedEventId = None, xCreatedAt = Some now \<rparr> of
        Inl err \<Rightarrow> Inl err
      | Inr s' \<Rightarrow> Inr (s', True))"

definition SupabaseStorage_updateRecurringInstance ::
  "DbState \<Rightarrow> string \<Rightarrow> string \<Rightarrow> int \<Rightarrow> string \<Rightarrow> int \<Rightarrow> PartialInsertEvent
     \<Rightarrow> DbError + (DbState \<times> Event option)" where
  "SupabaseStorage_updateRecurringInstance s newEventId newExceptionId now
       parentId instanceDate updates =
     (case SupabaseStorage_getEvent s parentId of
        None \<Rightarrow> Inr (s, None)
      | Some parentEvent \<Rightarrow>
          let modifiedEvent =
                \<lparr> eid = newEventId,
                  title = nullish (uTitle updates) (title parentEvent),
                  description =
                    (case uDescription updates of
                       None \<Rightarrow> description parentEvent | Some d \<Rightarrow> Some d),
                  startDate = nullish (uStartDate updates) instanceDate,
                  endDate =
                    (case uEndDate updates of
                       None \<Rightarrow> endDate parentEvent | Some e \<Rightarrow> Some e),
                  isRecurring = Some False,
                  recurringPattern = None,
                  recurringWeeks = None,
                  parentEventId = Some parentId,
                  originalDate = Some instanceDate,
                  createdAt = Some now \<rparr>
          in (case insertEventRow s modifiedEvent of
                Inl err \<Rightarrow> Inl err
              | Inr s1 \<Rightarrow>
                  (case insertExceptionRow s1
                          \<lparr> xid = newExceptionId, xParentEventId = parentId,
                            exceptionDate = instanceDate, xType = ''modified'',
                            modifiedEventId = Some newEventId, xCreatedAt = Some now \<rparr> of
                     Inl err \<Rightarrow> Inl err
                   | Inr s2 \<Rightarrow> Inr (s2, Some modifiedEvent))))"

definition SupabaseStorage_getNextRecurrenceDate :: "int \<Rightarrow> string option \<Rightarrow> int" where
  "SupabaseStorage_getNextRecurrenceDate currentDate pattern =
     (if pattern = Some ''daily'' then addDays currentDate 1
      else if pattern = Some ''weekly'' then addWeeks currentDate 1
      else if pattern = Some ''monthly'' then addMonths currentDate 1
      else if pattern = Some ''yearly'' then addYears currentDate 1
      else addWeeks currentDate 1)"

definition SupabaseStorage_seriesEndDate :: "Event \<Rightarrow> int \<Rightarrow> int option" where
  "SupabaseStorage_seriesEndDate baseEvent rangeEnd =
     (if truthyString (recurringWeeks baseEvent)
         \<and> recurringWeeks baseEvent \<noteq> Some ''indefinite''
      then
        let weeksToAdd = parseInt (the (recurringWeeks baseEvent));
            calculatedEndDate =
              (case weeksToAdd of
                 None \<Rightarrow> None
               | Some w \<Rightarrow> TimeClip (addWeeks (startDate baseEvent) w))
        in Math_min calculatedEndDate rangeEnd
      else Some rangeEnd)"

definition SupabaseStorage_instance :: "Event \<Rightarrow> int \<Rightarrow> Event" where
  "SupabaseStorage_instance baseEvent currentDate =
     (let timeDiff = nullish (endDate baseEvent) (startDate baseEvent) - startDate baseEvent
      in baseEvent
           \<lparr> eid := eid baseEvent @ ''-recur-'' @ format_yyyy_MM_dd currentDate,
             startDate := currentDate,
             endDate := (case endDate baseEvent of
                          None \<Rightarrow> None | Some e \<Rightarrow> Some (currentDate + timeDiff)),
             parentEventId := Some (eid baseEvent),
             originalDate := Some currentDate \<rparr>)"

section \<open>Facts about the calendar\<close>

subsection \<open>Years\<close>

lemma div_bounds:
  fixes a n :: int
  assumes "0 < n"
  shows "n * (a div n) \<le> a" and "a < n * (a div n) + n"
proof -
  have e: "n * (a div n) + a mod n = a" by simp
  have "0 \<le> a mod n" using assms by simp
  moreover have "a mod n < n" using assms by simp
  ultimately show "n * (a div n) \<le> a" and "a < n * (a div n) + n" using e by linarith+
qed

lemma DayFromYear_offset:
  "DayFromYear (x + 1970) = 365 * x + (x + 1) div 4 - (x + 69) div 100 + (x + 369) div 400"
  unfolding DayFromYear_def by (simp add: algebra_simps)

lemma DayFromYear_lower: "146097 * x - 506 \<le> 400 * DayFromYear (x + 1970)"
proof -
  define A where "A = (x + 1) div 4"
  define B where "B = (x + 69) div 100"
  define C where "C = (x + 369) div 400"
  have "x + 1 < 4 * A + 4" unfolding A_def by (rule div_bounds) simp
  moreover have "100 * B \<le> x + 69" unfolding B_def by (rule div_bounds) simp
  moreover have "x + 369 < 400 * C + 400" unfolding C_def by (rule div_bounds) simp
  moreover have "DayFromYear (x + 1970) = 365 * x + A - B + C"
    unfolding DayFromYear_offset A_def B_def C_def ..
  ultimately show ?thesis by linarith
qed

lemma DayFromYear_upper: "400 * DayFromYear (x + 1970) \<le> 146097 * x + 589"
proof -
  define A where "A = (x + 1) div 4"
  define B where "B = (x + 69) div 100"
  define C where "C = (x + 369) div 400"
  have "4 * A \<le> x + 1" unfolding A_def by (rule div_bounds) simp
  moreover have "x + 69 < 100 * B + 100" unfolding B_def by (rule div_bounds) simp
  moreover have "400 * C \<le> x + 369" unfolding C_def by (rule div_bounds) simp
  moreover have "DayFromYear (x + 1970) = 365 * x + A - B + C"
    unfolding DayFromYear_offset A_def B_def C_def ..
  ultimately show ?thesis by linarith
qed

lemma YearFromDay_bounds:
  "DayFromYear (YearFromDay d) \<le> d \<and> d < DayFromYear (YearFromDay d + 1)"
proof -
  define x where "x = (400 * d) div 146097"
  have a: "146097 * x \<le> 400 * d"
    unfolding x_def by (rule div_bounds) simp
  have b: "400 * d < 146097 * x + 146097"
    unfolding x_def by (rule div_bounds) simp
  have u: "400 * DayFromYear (x - 1 + 1970) \<le> 146097 * x - 145508"
    using DayFromYear_upper[of "x - 1"] by (simp add: algebra_simps)
  have l: "146097 * x + 291688 \<le> 400 * DayFromYear (x + 2 + 1970)"
    using DayFromYear_lower[of "x + 2"] by (simp add: algebra_simps)
  have lo: "DayFromYear (x - 1 + 1970) \<le> d"
    using u a by linarith
  have hi: "d < DayFromYear (x + 2 + 1970)"
    using l b by linarith
  have e1: "x - 1 + 1970 = 1970 + x - 1" and e2: "x + 2 + 1970 = 1970 + x + 1 + 1" by simp_all
  have "YearFromDay d = (if d < DayFromYear (1970 + x) then 1970 + x - 1
         else if DayFromYear (1970 + x + 1) \<le> d then 1970 + x + 1 else 1970 + x)"
    unfolding YearFromDay_def x_def Let_def ..
  then show ?thesis using lo hi unfolding e1 e2 by auto
qed

lemma div_step:
  fixes a n :: int
  assumes "0 < n"
  shows "(a + 1) div n = a div n + (if (a + 1) mod n = 0 then 1 else 0)"
proof (cases "(a + 1) mod n = 0")
  case True
  have e: "n * ((a + 1) div n) + (a + 1) mod n = a + 1" by simp
  have "a + 1 = n * ((a + 1) div n)" using e True by simp
  then have "a = n * ((a + 1) div n - 1) + (n - 1)" by (simp add: right_diff_distrib)
  then have "a div n = (a + 1) div n - 1"
    using assms by (intro int_div_pos_eq[where r = "n - 1"]) auto
  then show ?thesis using True by simp
next
  case False
  have e: "n * ((a + 1) div n) + (a + 1) mod n = a + 1" by simp
  have p: "0 \<le> (a + 1) mod n" "(a + 1) mod n < n" using assms by simp_all
  have "a = n * ((a + 1) div n) + ((a + 1) mod n - 1)" using e by (simp add: algebra_simps)
  then have "a div n = (a + 1) div n"
    using assms p False by (intro int_div_pos_eq[where r = "(a + 1) mod n - 1"]) auto
  then show ?thesis using False by simp
qed

lemma DayFromYear_Suc: "DayFromYear (y + 1) = DayFromYear y + DaysInYear y"
proof -
  have m4: "(y - 1969 + 1) mod 4 = y mod 4"
    using mod_diff_right_eq[of y 1968 4] by simp
  have m100: "(y - 1901 + 1) mod 100 = y mod 100"
    using mod_diff_right_eq[of y 1900 100] by simp
  have m400: "(y - 1601 + 1) mod 400 = y mod 400"
    using mod_diff_right_eq[of y 1600 400] by simp
  have d4: "(y + 1 - 1969) div 4 = (y - 1969) div 4 + (if y mod 4 = 0 then 1 else 0)"
    using div_step[of 4 "y - 1969"] m4 by (simp add: algebra_simps)
  have d100: "(y + 1 - 1901) div 100 = (y - 1901) div 100 + (if y mod 100 = 0 then 1 else 0)"
    using div_step[of 100 "y - 1901"] m100 by (simp add: algebra_simps)
  have d400: "(y + 1 - 1601) div 400 = (y - 1601) div 400 + (if y mod 400 = 0 then 1 else 0)"
    using div_step[of 400 "y - 1601"] m400 by (simp add: algebra_simps)
  have i1: "y mod 100 = 0 \<Longrightarrow> y mod 4 = 0"
    using mod_mod_cancel[of 4 100 y] by simp
  have i2: "y mod 400 = 0 \<Longrightarrow> y mod 100 = 0"
    using mod_mod_cancel[of 100 400 y] by simp
  show ?thesis
    unfolding DayFromYear_def DaysInYear_def d4 d100 d400
    using i1 i2 by auto
qed

lemma DaysInYear_leapDays: "DaysInYear y = 365 + leapDays y"
  unfolding leapDays_def DaysInYear_def by simp

lemma leapDays_cases: "leapDays y = 0 \<or> leapDays y = 1"
  unfolding leapDays_def by simp

lemma DayFromYear_mono: "y \<le> y' \<Longrightarrow> DayFromYear y \<le> DayFromYear y'"
proof (induction y' rule: int_ge_induct)
  case base
  show ?case by simp
next
  case (step i)
  have "0 \<le> DaysInYear i" unfolding DaysInYear_def by simp
  then show ?case using step.IH DayFromYear_Suc[of i] by linarith
qed

lemma YearFromDay_unique:
  assumes "DayFromYear y \<le> n" and "n < DayFromYear (y + 1)"
  shows "YearFromDay n = y"
proof (rule ccontr)
  assume ne: "YearFromDay n \<noteq> y"
  have b: "DayFromYear (YearFromDay n) \<le> n" "n < DayFromYear (YearFromDay n + 1)"
    using YearFromDay_bounds[of n] by simp_all
  show False
  proof (cases "YearFromDay n < y")
    case True
    then have "DayFromYear (YearFromDay n + 1) \<le> DayFromYear y"
      by (intro DayFromYear_mono) simp
    then show False using b assms by linarith
  next
    case False
    then have "DayFromYear (y + 1) \<le> DayFromYear (YearFromDay n)"
      using ne by (intro DayFromYear_mono) simp
    then show False using b assms by linarith
  qed
qed

lemma DayWithinYear_bounds:
  "0 \<le> DayWithinYear t" "DayWithinYear t < 365 + InLeapYear t"
  using YearFromDay_bounds[of "Day t"] DayFromYear_Suc[of "YearFromTime t"]
  unfolding DayWithinYear_def InLeapYear_def YearFromTime_def DaysInYear_leapDays
  by simp_all

lemma MonthFromTime_bounds: "0 \<le> MonthFromTime t" "MonthFromTime t \<le> 11"
  unfolding MonthFromTime_def monthOfYearDay_def by simp_all

subsection \<open>Days, months and dates\<close>

lemma TimeWithinDay_bounds: "0 \<le> TimeWithinDay t" "TimeWithinDay t < msPerDay"
  unfolding TimeWithinDay_def msPerDay_def by simp_all

lemma time_decomp: "MakeDate (Day t) (TimeWithinDay t) = t"
  unfolding MakeDate_def Day_def TimeWithinDay_def by simp

lemma Day_MakeDate:
  assumes "0 \<le> tm" "tm < msPerDay"
  shows "Day (MakeDate D tm) = D"
  unfolding Day_def MakeDate_def using assms
  by (intro int_div_pos_eq[where r = tm]) (simp_all add: msPerDay_def)

lemma TimeWithinDay_MakeDate:
  assumes "0 \<le> tm" "tm < msPerDay"
  shows "TimeWithinDay (MakeDate D tm) = tm"
  unfolding TimeWithinDay_def MakeDate_def using assms
  by (intro int_mod_pos_eq[where q = D]) (simp_all add: msPerDay_def)

lemma MakeDate_shift: "MakeDate (Day t + k) (TimeWithinDay t) = t + k * msPerDay"
  using time_decomp[of t] unfolding MakeDate_def by (simp add: algebra_simps)

text \<open>Length of month m in a year with l leap days.\<close>
definition daysInMonth :: "int \<Rightarrow> int \<Rightarrow> int" where
  "daysInMonth l m = (if m = 11 then 31 else monthStart l (m + 1) - monthStart l m)"

lemma Day_fields:
  "Day t = DayFromYear (YearFromTime t) + monthStart (InLeapYear t) (MonthFromTime t)
             + DateFromTime t - 1"
  unfolding DateFromTime_def DayWithinYear_def by simp

lemma MakeDay_in_year:
  assumes "0 \<le> m" "m \<le> 11"
  shows "MakeDay y m d = DayFromYear y + monthStart (leapDays y) m + d - 1"
proof -
  have "m div 12 = 0" "m mod 12 = m" using assms by simp_all
  then show ?thesis unfolding MakeDay_def Let_def by simp
qed

lemma MakeDay_fields:
  "MakeDay (YearFromTime t) (MonthFromTime t) (DateFromTime t + k) = Day t + k"
  using MakeDay_in_year[where m = "MonthFromTime t" and y = "YearFromTime t"
      and d = "DateFromTime t + k", OF MonthFromTime_bounds]
    Day_fields[of t] unfolding InLeapYear_def by simp

lemma setDate_shift: "setDate t (getDate t + k) = t + k * msPerDay"
  unfolding setDate_def getDate_def MakeDay_fields MakeDate_shift ..

lemma DateFromTime_bounds:
  "1 \<le> DateFromTime t" "DateFromTime t \<le> daysInMonth (InLeapYear t) (MonthFromTime t)"
proof -
  have l: "InLeapYear t = 0 \<or> InLeapYear t = 1"
    unfolding InLeapYear_def by (rule leapDays_cases)
  note b = DayWithinYear_bounds[of t]
  show "1 \<le> DateFromTime t"
    using l b unfolding DateFromTime_def MonthFromTime_def monthOfYearDay_def monthStart_def
    by auto
  show "DateFromTime t \<le> daysInMonth (InLeapYear t) (MonthFromTime t)"
    using l b unfolding DateFromTime_def MonthFromTime_def monthOfYearDay_def monthStart_def
      daysInMonth_def
    by auto
qed

lemma daysInMonth_bounds:
  assumes "0 \<le> m" "m \<le> 11" "l = 0 \<or> l = 1"
  shows "28 \<le> daysInMonth l m" "daysInMonth l m \<le> 31"
proof -
  have "m = 0 \<or> m = 1 \<or> m = 2 \<or> m = 3 \<or> m = 4 \<or> m = 5 \<or> m = 6 \<or> m = 7
          \<or> m = 8 \<or> m = 9 \<or> m = 10 \<or> m = 11"
    using assms(1,2) by presburger
  then show "28 \<le> daysInMonth l m" "daysInMonth l m \<le> 31"
    using assms(3) unfolding daysInMonth_def monthStart_def by auto
qed

lemma mod12_bounds: "0 \<le> (M::int) mod 12" "M mod 12 \<le> 11"
proof -
  show "0 \<le> M mod 12" by simp
  have "M mod 12 < 12" by simp
  then show "M mod 12 \<le> 11" by linarith
qed

lemma MakeDay_norm: "MakeDay y M d = MakeDay (y + M div 12) (M mod 12) d"
  unfolding MakeDay_def Let_def by simp

lemma MakeDay_date: "MakeDay y M d = MakeDay y M 1 + d - 1"
  unfolding MakeDay_def Let_def by simp

lemma mod12_step:
  "((M::int) + 1) mod 12 = (if M mod 12 = 11 then 0 else M mod 12 + 1)"
proof -
  have e: "(M + 1) mod 12 = (M mod 12 + 1) mod 12"
    by (simp add: mod_add_left_eq)
  show ?thesis
  proof (cases "M mod 12 = 11")
    case True
    then show ?thesis unfolding e by simp
  next
    case False
    then have "M mod 12 + 1 < 12" using mod12_bounds(2)[of M] by linarith
    moreover have "0 \<le> M mod 12 + 1" using mod12_bounds(1)[of M] by linarith
    ultimately have "(M mod 12 + 1) mod 12 = M mod 12 + 1" by simp
    then show ?thesis unfolding e using False by simp
  qed
qed

lemma MakeDay_next_month:
  "MakeDay y (M + 1) 1 = MakeDay y M 1 + daysInMonth (leapDays (y + M div 12)) (M mod 12)"
proof (cases "M mod 12 = 11")
  case True
  have m0: "(M + 1) mod 12 = 0" using True mod12_step[of M] by simp
  have d: "(M + 1) div 12 = M div 12 + 1" using div_step[of 12 M] m0 by simp
  have "MakeDay y (M + 1) 1 = DayFromYear (y + M div 12 + 1)"
    unfolding MakeDay_def Let_def m0 d by (simp add: monthStart_def add.assoc)
  also have "\<dots> = DayFromYear (y + M div 12) + 365 + leapDays (y + M div 12)"
    using DayFromYear_Suc[of "y + M div 12"] DaysInYear_leapDays[of "y + M div 12"] by simp
  also have "\<dots> = MakeDay y M 1 + daysInMonth (leapDays (y + M div 12)) (M mod 12)"
    unfolding MakeDay_def Let_def True daysInMonth_def by (simp add: monthStart_def)
  finally show ?thesis .
next
  case False
  have m: "(M + 1) mod 12 = M mod 12 + 1" using False mod12_step[of M] by simp
  then have "(M + 1) mod 12 \<noteq> 0" using mod12_bounds(1)[of M] by linarith
  then have d: "(M + 1) div 12 = M div 12" using div_step[of 12 M] by simp
  have "MakeDay y (M + 1) 1
          = DayFromYear (y + M div 12) + monthStart (leapDays (y + M div 12)) (M mod 12 + 1)"
    unfolding MakeDay_def Let_def m d by simp
  also have "\<dots> = MakeDay y M 1 + daysInMonth (leapDays (y + M div 12)) (M mod 12)"
    unfolding MakeDay_def Let_def daysInMonth_def using False by simp
  finally show ?thesis .
qed

lemma MakeDay_month_step: "MakeDay y M 1 + 28 \<le> MakeDay y (M + 1) 1"
  using MakeDay_next_month[of y M]
    daysInMonth_bounds(1)[where m = "M mod 12" and l = "leapDays (y + M div 12)",
      OF mod12_bounds leapDays_cases]
  by linarith

lemma MakeDay_month_mono: "M \<le> M' \<Longrightarrow> MakeDay y M 1 \<le> MakeDay y M' 1"
proof (induction M' rule: int_ge_induct)
  case base
  show ?case by simp
next
  case (step i)
  then show ?case using MakeDay_month_step[of y i] by linarith
qed


lemma monthOfYearDay_monthStart:
  assumes "0 \<le> m" "m \<le> 11" "l = 0 \<or> l = 1" "1 \<le> d" "d \<le> daysInMonth l m"
  shows "monthOfYearDay l (monthStart l m + d - 1) = m"
proof -
  have "m = 0 \<or> m = 1 \<or> m = 2 \<or> m = 3 \<or> m = 4 \<or> m = 5 \<or> m = 6 \<or> m = 7
          \<or> m = 8 \<or> m = 9 \<or> m = 10 \<or> m = 11"
    using assms(1,2) by presburger
  then show ?thesis
    using assms(3,4,5)
    by (elim disjE; simp add: daysInMonth_def monthStart_def monthOfYearDay_def)
qed

lemma monthStart_range:
  assumes "0 \<le> m" "m \<le> 11" "l = 0 \<or> l = 1" "1 \<le> d" "d \<le> daysInMonth l m"
  shows "0 \<le> monthStart l m + d - 1" "monthStart l m + d - 1 < 365 + l"
proof -
  have "m = 0 \<or> m = 1 \<or> m = 2 \<or> m = 3 \<or> m = 4 \<or> m = 5 \<or> m = 6 \<or> m = 7
          \<or> m = 8 \<or> m = 9 \<or> m = 10 \<or> m = 11"
    using assms(1,2) by presburger
  then show "0 \<le> monthStart l m + d - 1" "monthStart l m + d - 1 < 365 + l"
    using assms(3,4,5)
    by (elim disjE; simp add: daysInMonth_def monthStart_def)+
qed


lemma fields_MakeDate:
  assumes m: "0 \<le> m" "m \<le> 11"
    and d: "1 \<le> d" "d \<le> daysInMonth (leapDays y) m"
    and tm: "0 \<le> tm" "tm < msPerDay"
  shows "YearFromTime (MakeDate (MakeDay y m d) tm) = y"
    and "MonthFromTime (MakeDate (MakeDay y m d) tm) = m"
    and "DateFromTime (MakeDate (MakeDay y m d) tm) = d"
    and "TimeWithinDay (MakeDate (MakeDay y m d) tm) = tm"
proof -
  let ?t = "MakeDate (MakeDay y m d) tm"
  let ?l = "leapDays y"
  have day: "Day ?t = DayFromYear y + (monthStart ?l m + d - 1)"
    unfolding Day_MakeDate[OF tm] MakeDay_in_year[OF m] by simp
  note r = monthStart_range[OF m leapDays_cases d]
  have "DayFromYear y \<le> Day ?t" using day r(1) by linarith
  moreover have "Day ?t < DayFromYear (y + 1)"
    unfolding DayFromYear_Suc DaysInYear_leapDays using day r(2) by linarith
  ultimately show yr: "YearFromTime ?t = y"
    unfolding YearFromTime_def by (rule YearFromDay_unique)
  have dwy: "DayWithinYear ?t = monthStart ?l m + d - 1"
    unfolding DayWithinYear_def yr day by simp
  have il: "InLeapYear ?t = ?l" unfolding InLeapYear_def yr ..
  show mo: "MonthFromTime ?t = m"
    unfolding MonthFromTime_def il dwy
    by (rule monthOfYearDay_monthStart[OF m leapDays_cases d])
  show "DateFromTime ?t = d"
    unfolding DateFromTime_def il dwy mo by simp
  show "TimeWithinDay ?t = tm" by (rule TimeWithinDay_MakeDate[OF tm])
qed

subsection \<open>The steps of the two backends\<close>

lemma MakeDate_day_step:
  assumes "Day t < D"
  shows "t + msPerDay \<le> MakeDate D (TimeWithinDay t)"
proof -
  have "Day t + 1 \<le> D" using assms by simp
  then have "(Day t + 1) * msPerDay \<le> D * msPerDay"
    by (intro mult_right_mono) (simp_all add: msPerDay_def)
  then have "MakeDate (Day t) (TimeWithinDay t) + msPerDay \<le> MakeDate D (TimeWithinDay t)"
    unfolding MakeDate_def by (simp add: algebra_simps)
  then show ?thesis unfolding time_decomp .
qed

lemma Day_as_MakeDay: "Day t = MakeDay (YearFromTime t) (MonthFromTime t) (DateFromTime t)"
  using MakeDay_fields[of t 0] by simp

lemma Day_lt_next_month:
  assumes "MonthFromTime t < M"
  shows "Day t < MakeDay (YearFromTime t) M 1"
proof -
  let ?y = "YearFromTime t" and ?m = "MonthFromTime t"
  have n: "?m div 12 = 0" "?m mod 12 = ?m" using MonthFromTime_bounds[of t] by simp_all
  have "Day t = MakeDay ?y ?m 1 + DateFromTime t - 1"
    using Day_as_MakeDay[of t] MakeDay_date[of ?y ?m "DateFromTime t"] by simp
  also have "\<dots> < MakeDay ?y ?m 1 + daysInMonth (InLeapYear t) ?m"
    using DateFromTime_bounds(2)[of t] by linarith
  also have "\<dots> = MakeDay ?y (?m + 1) 1"
    unfolding MakeDay_next_month n InLeapYear_def by simp
  also have "\<dots> \<le> MakeDay ?y M 1"
    using assms by (intro MakeDay_month_mono) simp
  finally show ?thesis .
qed

text \<open>The result of addMonths in closed form.\<close>

lemma addMonths_eq:
  fixes t k :: int
  assumes "k \<noteq> 0"
  defines "M \<equiv> MonthFromTime t + k"
  defines "Y \<equiv> YearFromTime t + M div 12"
  shows "addMonths t k =
           MakeDate (MakeDay Y (M mod 12)
                       (min (DateFromTime t) (daysInMonth (leapDays Y) (M mod 12))))
             (TimeWithinDay t)"
proof -
  let ?y = "YearFromTime t" and ?d = "DateFromTime t" and ?tw = "TimeWithinDay t"
  let ?dim = "daysInMonth (leapDays Y) (M mod 12)"
  let ?e = "setMonth t (MonthFromTime t + k + 1) 0"
  have dim: "28 \<le> ?dim" "?dim \<le> 31"
    by (rule daysInMonth_bounds[OF mod12_bounds leapDays_cases])+
  have "MakeDay ?y (M + 1) 0 = MakeDay ?y (M + 1) 1 - 1"
    using MakeDay_date[of ?y "M + 1" 0] by simp
  also have "\<dots> = MakeDay ?y M 1 + ?dim - 1"
    unfolding MakeDay_next_month Y_def by simp
  also have "\<dots> = MakeDay ?y M ?dim"
    using MakeDay_date[of ?y M ?dim] by simp
  also have "\<dots> = MakeDay Y (M mod 12) ?dim"
    unfolding Y_def by (rule MakeDay_norm)
  finally have e: "?e = MakeDate (MakeDay Y (M mod 12) ?dim) ?tw"
    unfolding setMonth_def M_def by (simp add: add.assoc)
  have d1: "1 \<le> ?dim" using dim(1) by linarith
  have ge: "DateFromTime ?e = ?dim" "YearFromTime ?e = Y" "MonthFromTime ?e = M mod 12"
    unfolding e
    by (rule fields_MakeDate[OF mod12_bounds d1 order_refl TimeWithinDay_bounds])+
  show ?thesis
  proof (cases "?dim \<le> ?d")
    case True
    then have "addMonths t k = ?e"
      unfolding addMonths_def Let_def getDate_def getMonth_def getFullYear_def ge
      using assms(1) by simp
    moreover have "min ?d ?dim = ?dim" using True by simp
    ultimately show ?thesis using e by simp
  next
    case False
    then have "addMonths t k = setFullYear t Y (M mod 12) ?d"
      unfolding addMonths_def Let_def getDate_def getMonth_def getFullYear_def ge
      using assms(1) by simp
    moreover have "min ?d ?dim = ?d" using False by simp
    ultimately show ?thesis unfolding setFullYear_def by simp
  qed
qed

lemma addMonths_day_step:
  assumes "0 < k"
  shows "t + msPerDay \<le> addMonths t k"
proof -
  let ?M = "MonthFromTime t + k"
  let ?Y = "YearFromTime t + ?M div 12"
  let ?dd = "min (DateFromTime t) (daysInMonth (leapDays ?Y) (?M mod 12))"
  have "28 \<le> daysInMonth (leapDays ?Y) (?M mod 12)"
    by (rule daysInMonth_bounds[OF mod12_bounds leapDays_cases])
  then have "1 \<le> ?dd" using DateFromTime_bounds(1)[of t] by simp
  have "Day t < MakeDay (YearFromTime t) ?M 1"
    using assms by (intro Day_lt_next_month) simp
  also have "\<dots> \<le> MakeDay (YearFromTime t) ?M ?dd"
    using MakeDay_date[of "YearFromTime t" ?M ?dd] \<open>1 \<le> ?dd\<close> by linarith
  also have "\<dots> = MakeDay ?Y (?M mod 12) ?dd" by (rule MakeDay_norm)
  finally have "t + msPerDay \<le> MakeDate (MakeDay ?Y (?M mod 12) ?dd) (TimeWithinDay t)"
    by (rule MakeDate_day_step)
  moreover have "k \<noteq> 0" using assms by simp
  ultimately show ?thesis using addMonths_eq[of k t] by simp
qed

lemma addDays_shift: "addDays t k = t + k * msPerDay"
  unfolding addDays_def using setDate_shift[of t k] by simp

lemma addWeeks_shift: "addWeeks t k = t + k * 7 * msPerDay"
  unfolding addWeeks_def addDays_shift by simp

lemma SupabaseStorage_getNextRecurrenceDate_day_step:
  "t + msPerDay \<le> SupabaseStorage_getNextRecurrenceDate t p"
  unfolding SupabaseStorage_getNextRecurrenceDate_def addYears_def
  using addMonths_day_step[of 1 t] addMonths_day_step[of "1 * 12" t]
  by (simp add: addDays_shift addWeeks_shift msPerDay_def)

lemma SupabaseStorage_getNextRecurrenceDate_increases:
  "t < SupabaseStorage_getNextRecurrenceDate t p"
  using SupabaseStorage_getNextRecurrenceDate_day_step[of t p] by (simp add: msPerDay_def)

subsection \<open>The monthly and yearly steps in closed form\<close>

lemma MakeDate_diff: "MakeDate A tm = MakeDate B tm + (A - B) * msPerDay"
  unfolding MakeDate_def by (simp add: algebra_simps)

lemma EnhancedMemStorage_monthly:
  "EnhancedMemStorage_getNextRecurrenceDate t (Some ''monthly'')
     = MakeDate (MakeDay (YearFromTime t + (MonthFromTime t + 1) div 12)
                   ((MonthFromTime t + 1) mod 12) (DateFromTime t)) (TimeWithinDay t)"
  unfolding EnhancedMemStorage_getNextRecurrenceDate_def setMonth_def getMonth_def getDate_def
  using MakeDay_norm[of "YearFromTime t" "MonthFromTime t + 1" "DateFromTime t"] by simp

lemma EnhancedMemStorage_yearly:
  "EnhancedMemStorage_getNextRecurrenceDate t (Some ''yearly'')
     = MakeDate (MakeDay (YearFromTime t + 1) (MonthFromTime t) (DateFromTime t))
         (TimeWithinDay t)"
  unfolding EnhancedMemStorage_getNextRecurrenceDate_def setFullYear_def getMonth_def
    getDate_def getFullYear_def by simp

lemma SupabaseStorage_monthly:
  "SupabaseStorage_getNextRecurrenceDate t (Some ''monthly'')
     = MakeDate (MakeDay (YearFromTime t + (MonthFromTime t + 1) div 12)
                   ((MonthFromTime t + 1) mod 12)
                   (min (DateFromTime t)
                      (daysInMonth (leapDays (YearFromTime t + (MonthFromTime t + 1) div 12))
                         ((MonthFromTime t + 1) mod 12))))
         (TimeWithinDay t)"
  unfolding SupabaseStorage_getNextRecurrenceDate_def using addMonths_eq[of 1 t] by simp

lemma month_plus_12:
  "(MonthFromTime t + 12) div 12 = 1" "(MonthFromTime t + 12) mod 12 = MonthFromTime t"
  using MonthFromTime_bounds[of t] by simp_all

lemma SupabaseStorage_yearly:
  "SupabaseStorage_getNextRecurrenceDate t (Some ''yearly'')
     = MakeDate (MakeDay (YearFromTime t + 1) (MonthFromTime t)
                   (min (DateFromTime t)
                      (daysInMonth (leapDays (YearFromTime t + 1)) (MonthFromTime t))))
         (TimeWithinDay t)"
proof -
  have "(12::int) \<noteq> 0" by simp
  from addMonths_eq[OF this, of t, unfolded month_plus_12]
  show ?thesis
    unfolding SupabaseStorage_getNextRecurrenceDate_def addYears_def by simp
qed

text \<open>
  The date that lies in month \<open>M\<close> of year \<open>Y\<close> on the day of the month of \<open>t\<close>, or on
  the last day of that month when it has no such day, at the time of day of \<open>t\<close>.
\<close>

definition clampedDate :: "int \<Rightarrow> int \<Rightarrow> int \<Rightarrow> int" where
  "clampedDate Y M t =
     MakeDate (MakeDay Y M (min (DateFromTime t) (daysInMonth (leapDays Y) M)))
       (TimeWithinDay t)"

lemma clampedDate_fields:
  assumes "0 \<le> M" "M \<le> 11"
  shows "YearFromTime (clampedDate Y M t) = Y"
    and "MonthFromTime (clampedDate Y M t) = M"
    and "DateFromTime (clampedDate Y M t) = min (DateFromTime t) (daysInMonth (leapDays Y) M)"
    and "TimeWithinDay (clampedDate Y M t) = TimeWithinDay t"
proof -
  let ?d = "min (DateFromTime t) (daysInMonth (leapDays Y) M)"
  have "28 \<le> daysInMonth (leapDays Y) M"
    by (rule daysInMonth_bounds[OF assms leapDays_cases])
  then have d: "1 \<le> ?d" "?d \<le> daysInMonth (leapDays Y) M"
    using DateFromTime_bounds(1)[of t] by simp_all
  show "YearFromTime (clampedDate Y M t) = Y"
    and "MonthFromTime (clampedDate Y M t) = M"
    and "DateFromTime (clampedDate Y M t) = ?d"
    and "TimeWithinDay (clampedDate Y M t) = TimeWithinDay t"
    unfolding clampedDate_def
    by (rule fields_MakeDate[OF assms d TimeWithinDay_bounds])+
qed

lemma overflow_days:
  "MakeDate (MakeDay Y M (DateFromTime t)) (TimeWithinDay t)
     = clampedDate Y M t
         + (DateFromTime t - min (DateFromTime t) (daysInMonth (leapDays Y) M)) * msPerDay"
  unfolding clampedDate_def
  using MakeDate_diff[of "MakeDay Y M (DateFromTime t)" "TimeWithinDay t"
      "MakeDay Y M (min (DateFromTime t) (daysInMonth (leapDays Y) M))"]
    MakeDay_date[of Y M "DateFromTime t"]
    MakeDay_date[of Y M "min (DateFromTime t) (daysInMonth (leapDays Y) M)"]
  by simp

section \<open>Expansion in the database backend\<close>

text \<open>
  The loop of \<open>SupabaseStorage.generateRecurringInstances\<close>. It has no counter
  of iterations: it ends because every step moves the current date forward.
\<close>

function SupabaseStorage_loop ::
  "Event \<Rightarrow> int option \<Rightarrow> string set \<Rightarrow> string set \<Rightarrow> int \<Rightarrow> Event list" where
  "SupabaseStorage_loop baseEvent seriesEndDate deletedDates modifiedDates currentDate =
     (if isBefore currentDate seriesEndDate then
        (if format_yyyy_MM_dd currentDate \<in> deletedDates then
           SupabaseStorage_loop baseEvent seriesEndDate deletedDates modifiedDates
             (SupabaseStorage_getNextRecurrenceDate currentDate (recurringPattern baseEvent))
         else if format_yyyy_MM_dd currentDate \<in> modifiedDates then
           SupabaseStorage_loop baseEvent seriesEndDate deletedDates modifiedDates
             (SupabaseStorage_getNextRecurrenceDate currentDate (recurringPattern baseEvent))
         else
           SupabaseStorage_instance baseEvent currentDate
             # SupabaseStorage_loop baseEvent seriesEndDate deletedDates modifiedDates
                 (SupabaseStorage_getNextRecurrenceDate currentDate
                    (recurringPattern baseEvent)))
      else [])"
  by pat_completeness auto
termination
proof (relation "measure (\<lambda>(b, e, d, m, c). nat (the e - c))")
  show "wf (measure (\<lambda>(b, e, d, m, c). nat (the e - c)))" by simp
next
  fix baseEvent :: Event and seriesEndDate :: "int option"
    and deletedDates modifiedDates :: "string set" and currentDate :: int
  assume "isBefore currentDate seriesEndDate"
  then obtain e where e: "seriesEndDate = Some e" "currentDate < e"
    unfolding isBefore_def by (cases seriesEndDate) simp_all
  have "currentDate
          < SupabaseStorage_getNextRecurrenceDate currentDate (recurringPattern baseEvent)"
    by (rule SupabaseStorage_getNextRecurrenceDate_increases)
  then have m: "nat (e - SupabaseStorage_getNextRecurrenceDate currentDate
                        (recurringPattern baseEvent)) < nat (e - currentDate)"
    using e(2) by linarith
  show "((baseEvent, seriesEndDate, deletedDates, modifiedDates,
           SupabaseStorage_getNextRecurrenceDate currentDate (recurringPattern baseEvent)),
          (baseEvent, seriesEndDate, deletedDates, modifiedDates, currentDate))
        \<in> measure (\<lambda>(b, e, d, m, c). nat (the e - c))"
    using m e(1) by simp
  then show "((baseEvent, seriesEndDate, deletedDates, modifiedDates,
           SupabaseStorage_getNextRecurrenceDate currentDate (recurringPattern baseEvent)),
          (baseEvent, seriesEndDate, deletedDates, modifiedDates, currentDate))
        \<in> measure (\<lambda>(b, e, d, m, c). nat (the e - c))" .
  then show "((baseEvent, seriesEndDate, deletedDates, modifiedDates,
           SupabaseStorage_getNextRecurrenceDate currentDate (recurringPattern baseEvent)),
          (baseEvent, seriesEndDate, deletedDates, modifiedDates, currentDate))
        \<in> measure (\<lambda>(b, e, d, m, c). nat (the e - c))" .
qed

declare SupabaseStorage_loop.simps [simp del]

definition SupabaseStorage_generateRecurringInstances ::
  "Event \<Rightarrow> int \<Rightarrow> int \<Rightarrow> EventException list \<Rightarrow> Event list" where
  "SupabaseStorage_generateRecurringInstances baseEvent rangeStart rangeEnd exceptions =
     (let deletedDates =
            set (map (\<lambda>ex. format_yyyy_MM_dd (exceptionDate ex))
                   (filter (\<lambda>ex. xType ex = ''deleted'') exceptions));
          modifiedDates =
            set (map (\<lambda>ex. format_yyyy_MM_dd (exceptionDate ex))
                   (filter (\<lambda>ex. xType ex = ''modified'') exceptions))
      in SupabaseStorage_loop baseEvent
           (SupabaseStorage_seriesEndDate baseEvent rangeEnd)
           deletedDates modifiedDates (max (startDate baseEvent) rangeStart))"

text \<open>
  \<open>SupabaseStorage.expandRecurringEvents\<close>. The optional bounds of the window are
  options, and the current time is an argument. The exceptions of an event are
  those the source collects under its id in \<open>exceptionMap\<close>, in the order of the
  table. The events of the second query, not recurring and with a parent, are
  appended to the expansion of the rows passed in.
\<close>

definition SupabaseStorage_expandOne ::
  "DbState \<Rightarrow> int \<Rightarrow> int \<Rightarrow> Event \<Rightarrow> Event list" where
  "SupabaseStorage_expandOne s rangeStart rangeEnd event =
     (if \<not> truthyBool (isRecurring event) then [event]
      else SupabaseStorage_generateRecurringInstances event rangeStart rangeEnd
             (filter (\<lambda>ex. xParentEventId ex = eid event) (exceptionRows s)))"

definition SupabaseStorage_modifiedEvents :: "DbState \<Rightarrow> Event list" where
  "SupabaseStorage_modifiedEvents s =
     filter (\<lambda>e. isRecurring e = Some False \<and> parentEventId e \<noteq> None) (eventRows s)"

definition SupabaseStorage_expandRecurringEvents ::
  "DbState \<Rightarrow> int \<Rightarrow> Event list \<Rightarrow> int option \<Rightarrow> int option \<Rightarrow> Event list" where
  "SupabaseStorage_expandRecurringEvents s now dbEvents rangeStart rangeEnd =
     (let startDate' = nullish rangeStart now;
          endDate' = nullish rangeEnd (addMonths now 6)
      in sortByStartDate
           (concat (map (SupabaseStorage_expandOne s startDate' endDate') dbEvents)
              @ SupabaseStorage_modifiedEvents s))"

definition SupabaseStorage_getEvents :: "DbState \<Rightarrow> int \<Rightarrow> Event list" where
  "SupabaseStorage_getEvents s now =
     SupabaseStorage_expandRecurringEvents s now (sortByStartDate (eventRows s)) None None"

definition SupabaseStorage_getEventsByDateRange ::
  "DbState \<Rightarrow> int \<Rightarrow> int \<Rightarrow> int \<Rightarrow> Event list" where
  "SupabaseStorage_getEventsByDateRange s now rangeStart rangeEnd =
     SupabaseStorage_expandRecurringEvents s now
       (sortByStartDate
          (filter (\<lambda>e. rangeStart \<le> startDate e \<and> startDate e \<le> rangeEnd) (eventRows s)))
       (Some rangeStart) (Some rangeEnd)"

section \<open>Facts about the two loops\<close>

lemma SupabaseStorage_instance_fields:
  "startDate (SupabaseStorage_instance b c) = c"
  "eid (SupabaseStorage_instance b c) = eid b @ ''-recur-'' @ format_yyyy_MM_dd c"
  "parentEventId (SupabaseStorage_instance b c) = Some (eid b)"
  "originalDate (SupabaseStorage_instance b c) = Some c"
  unfolding SupabaseStorage_instance_def Let_def by simp_all

lemma EnhancedMemStorage_instance_fields:
  "startDate (EnhancedMemStorage_instance b c) = c"
  "eid (EnhancedMemStorage_instance b c) = eid b @ ''-recur-'' @ string_of_int c"
  "parentEventId (EnhancedMemStorage_instance b c) = Some (eid b)"
  "originalDate (EnhancedMemStorage_instance b c) = Some c"
  unfolding EnhancedMemStorage_instance_def Let_def by simp_all

text \<open>What holds of every instance that the loop of the database backend emits.\<close>

definition SupabaseStorage_emitted ::
  "Event \<Rightarrow> int option \<Rightarrow> string set \<Rightarrow> string set \<Rightarrow> int \<Rightarrow> Event \<Rightarrow> bool" where
  "SupabaseStorage_emitted b se dd md c e =
     (c \<le> startDate e \<and> isBefore (startDate e) se
      \<and> format_yyyy_MM_dd (startDate e) \<notin> dd
      \<and> format_yyyy_MM_dd (startDate e) \<notin> md
      \<and> (\<exists>k. startDate e
                 = ((\<lambda>t. SupabaseStorage_getNextRecurrenceDate t (recurringPattern b)) ^^ k) c)
      \<and> e = SupabaseStorage_instance b (startDate e))"

lemma SupabaseStorage_emitted_step:
  assumes "SupabaseStorage_emitted b se dd md
             (SupabaseStorage_getNextRecurrenceDate c (recurringPattern b)) e"
  shows "SupabaseStorage_emitted b se dd md c e"
proof -
  let ?f = "\<lambda>t. SupabaseStorage_getNextRecurrenceDate t (recurringPattern b)"
  obtain k where k: "startDate e = (?f ^^ k) (?f c)"
    using assms unfolding SupabaseStorage_emitted_def by blast
  then have "startDate e = (?f ^^ Suc k) c"
    by (simp add: funpow_Suc_right del: funpow.simps)
  then have "\<exists>k. startDate e = (?f ^^ k) c" by blast
  moreover have "c \<le> startDate e"
    using assms SupabaseStorage_getNextRecurrenceDate_increases[of c "recurringPattern b"]
    unfolding SupabaseStorage_emitted_def by linarith
  ultimately show ?thesis
    using assms unfolding SupabaseStorage_emitted_def by simp
qed

lemma SupabaseStorage_emitted_here:
  assumes "isBefore c se" "format_yyyy_MM_dd c \<notin> dd" "format_yyyy_MM_dd c \<notin> md"
  shows "SupabaseStorage_emitted b se dd md c (SupabaseStorage_instance b c)"
proof -
  let ?f = "\<lambda>t. SupabaseStorage_getNextRecurrenceDate t (recurringPattern b)"
  have "c = (?f ^^ 0) c" by simp
  then have "\<exists>k. c = (?f ^^ k) c" by blast
  then show ?thesis
    using assms unfolding SupabaseStorage_emitted_def
    by (simp add: SupabaseStorage_instance_fields)
qed

lemma SupabaseStorage_loop_emitted:
  "e \<in> set (SupabaseStorage_loop b se dd md c) \<Longrightarrow> SupabaseStorage_emitted b se dd md c e"
proof (induction b se dd md c rule: SupabaseStorage_loop.induct)
  case (1 b se dd md c)
  let ?n = "SupabaseStorage_getNextRecurrenceDate c (recurringPattern b)"
  show ?case
  proof (cases "isBefore c se")
    case False
    then show ?thesis using "1.prems" by (simp add: SupabaseStorage_loop.simps)
  next
    case before: True
    show ?thesis
    proof (cases "format_yyyy_MM_dd c \<in> dd")
      case True
      then have "e \<in> set (SupabaseStorage_loop b se dd md ?n)"
        using "1.prems" before by (simp add: SupabaseStorage_loop.simps[of b se dd md c])
      then show ?thesis
        using "1.IH"(1)[OF before True] SupabaseStorage_emitted_step by blast
    next
      case nd: False
      show ?thesis
      proof (cases "format_yyyy_MM_dd c \<in> md")
        case True
        then have "e \<in> set (SupabaseStorage_loop b se dd md ?n)"
          using "1.prems" before nd by (simp add: SupabaseStorage_loop.simps[of b se dd md c])
        then show ?thesis
          using "1.IH"(2)[OF before nd True] SupabaseStorage_emitted_step by blast
      next
        case nm: False
        then have "e = SupabaseStorage_instance b c
                     \<or> e \<in> set (SupabaseStorage_loop b se dd md ?n)"
          using "1.prems" before nd by (simp add: SupabaseStorage_loop.simps[of b se dd md c])
        then show ?thesis
          using "1.IH"(3)[OF before nd nm] SupabaseStorage_emitted_step
            SupabaseStorage_emitted_here[OF before nd nm] by blast
      qed
    qed
  qed
qed


text \<open>What holds of every instance that the loop of the memory backend emits.\<close>

definition EnhancedMemStorage_emitted ::
  "Event \<Rightarrow> int option \<Rightarrow> string set \<Rightarrow> string set \<Rightarrow> int \<Rightarrow> Event \<Rightarrow> bool" where
  "EnhancedMemStorage_emitted b se dd md c e =
     (isBefore (startDate e) se
      \<and> toDateString (startDate e) \<notin> dd
      \<and> toDateString (startDate e) \<notin> md
      \<and> (\<exists>k. startDate e
                 = ((\<lambda>t. EnhancedMemStorage_getNextRecurrenceDate t (recurringPattern b)) ^^ k) c)
      \<and> e = EnhancedMemStorage_instance b (startDate e))"

lemma EnhancedMemStorage_emitted_step:
  assumes "EnhancedMemStorage_emitted b se dd md
             (EnhancedMemStorage_getNextRecurrenceDate c (recurringPattern b)) e"
  shows "EnhancedMemStorage_emitted b se dd md c e"
proof -
  let ?f = "\<lambda>t. EnhancedMemStorage_getNextRecurrenceDate t (recurringPattern b)"
  obtain k where k: "startDate e = (?f ^^ k) (?f c)"
    using assms unfolding EnhancedMemStorage_emitted_def by blast
  then have "startDate e = (?f ^^ Suc k) c"
    by (simp add: funpow_Suc_right del: funpow.simps)
  then have "\<exists>k. startDate e = (?f ^^ k) c" by blast
  then show ?thesis
    using assms unfolding EnhancedMemStorage_emitted_def by simp
qed

lemma EnhancedMemStorage_emitted_here:
  assumes "isBefore c se" "toDateString c \<notin> dd" "toDateString c \<notin> md"
  shows "EnhancedMemStorage_emitted b se dd md c (EnhancedMemStorage_instance b c)"
proof -
  let ?f = "\<lambda>t. EnhancedMemStorage_getNextRecurrenceDate t (recurringPattern b)"
  have "c = (?f ^^ 0) c" by simp
  then have "\<exists>k. c = (?f ^^ k) c" by blast
  then show ?thesis
    using assms unfolding EnhancedMemStorage_emitted_def
    by (simp add: EnhancedMemStorage_instance_fields)
qed

lemma EnhancedMemStorage_loop_unfold:
  "EnhancedMemStorage_loop b se dd md i c =
     (if isBefore c se \<and> i < maxIterations then
        (if toDateString c \<in> dd \<or> toDateString c \<in> md
         then EnhancedMemStorage_loop b se dd md (i + 1)
                (EnhancedMemStorage_getNextRecurrenceDate c (recurringPattern b))
         else EnhancedMemStorage_instance b c
                # EnhancedMemStorage_loop b se dd md (i + 1)
                    (EnhancedMemStorage_getNextRecurrenceDate c (recurringPattern b)))
      else [])"
  by (rule EnhancedMemStorage_loop.simps)

lemma EnhancedMemStorage_loop_emitted:
  "e \<in> set (EnhancedMemStorage_loop b se dd md i c)
     \<Longrightarrow> EnhancedMemStorage_emitted b se dd md c e"
proof (induction b se dd md i c rule: EnhancedMemStorage_loop.induct)
  case (1 b se dd md i c)
  let ?n = "EnhancedMemStorage_getNextRecurrenceDate c (recurringPattern b)"
  let ?go = "isBefore c se \<and> i < maxIterations"
  show ?case
  proof (cases ?go)
    case False
    then have "EnhancedMemStorage_loop b se dd md i c = []"
      using EnhancedMemStorage_loop_unfold[of b se dd md i c] by presburger
    then show ?thesis using "1.prems" by simp
  next
    case go: True
    show ?thesis
    proof (cases "toDateString c \<in> dd \<or> toDateString c \<in> md")
      case True
      then have "EnhancedMemStorage_loop b se dd md i c
                   = EnhancedMemStorage_loop b se dd md (i + 1) ?n"
        using go EnhancedMemStorage_loop_unfold[of b se dd md i c] by presburger
      then have "e \<in> set (EnhancedMemStorage_loop b se dd md (i + 1) ?n)"
        using "1.prems" by simp
      then show ?thesis
        using "1.IH"(1)[OF go True] EnhancedMemStorage_emitted_step by blast
    next
      case nx: False
      then have "EnhancedMemStorage_loop b se dd md i c
                   = EnhancedMemStorage_instance b c
                       # EnhancedMemStorage_loop b se dd md (i + 1) ?n"
        using go EnhancedMemStorage_loop_unfold[of b se dd md i c] by presburger
      then have "e = EnhancedMemStorage_instance b c
                   \<or> e \<in> set (EnhancedMemStorage_loop b se dd md (i + 1) ?n)"
        using "1.prems" by simp
      moreover have "EnhancedMemStorage_emitted b se dd md c (EnhancedMemStorage_instance b c)"
        using go nx by (intro EnhancedMemStorage_emitted_here) simp_all
      ultimately show ?thesis
        using "1.IH"(2)[OF go nx] EnhancedMemStorage_emitted_step by blast
    qed
  qed
qed

lemma EnhancedMemStorage_loop_length:
  "length (EnhancedMemStorage_loop b se dd md i c) \<le> maxIterations - i"
proof (induction b se dd md i c rule: EnhancedMemStorage_loop.induct)
  case (1 b se dd md i c)
  let ?n = "EnhancedMemStorage_getNextRecurrenceDate c (recurringPattern b)"
  let ?go = "isBefore c se \<and> i < maxIterations"
  show ?case
  proof (cases ?go)
    case False
    then have "EnhancedMemStorage_loop b se dd md i c = []"
      using EnhancedMemStorage_loop_unfold[of b se dd md i c] by presburger
    then show ?thesis by simp
  next
    case go: True
    show ?thesis
    proof (cases "toDateString c \<in> dd \<or> toDateString c \<in> md")
      case True
      then have "EnhancedMemStorage_loop b se dd md i c
                   = EnhancedMemStorage_loop b se dd md (i + 1) ?n"
        using go EnhancedMemStorage_loop_unfold[of b se dd md i c] by presburger
      then show ?thesis
        using "1.IH"(1)[OF go True] by simp
    next
      case nx: False
      then have "EnhancedMemStorage_loop b se dd md i c
                   = EnhancedMemStorage_instance b c
                       # EnhancedMemStorage_loop b se dd md (i + 1) ?n"
        using go EnhancedMemStorage_loop_unfold[of b se dd md i c] by presburger
      moreover have "i < maxIterations" using go by simp
      ultimately show ?thesis
        using "1.IH"(2)[OF go nx] by simp
    qed
  qed
qed


lemma SupabaseStorage_loop_unfold:
  "SupabaseStorage_loop b se dd md c =
     (if isBefore c se then
        (if format_yyyy_MM_dd c \<in> dd then
           SupabaseStorage_loop b se dd md
             (SupabaseStorage_getNextRecurrenceDate c (recurringPattern b))
         else if format_yyyy_MM_dd c \<in> md then
           SupabaseStorage_loop b se dd md
             (SupabaseStorage_getNextRecurrenceDate c (recurringPattern b))
         else
           SupabaseStorage_instance b c
             # SupabaseStorage_loop b se dd md
                 (SupabaseStorage_getNextRecurrenceDate c (recurringPattern b)))
      else [])"
  by (rule SupabaseStorage_loop.simps)

text \<open>The number of days, whole or begun, from \<open>c\<close> to \<open>e\<close>.\<close>

definition daysUntil :: "int \<Rightarrow> int \<Rightarrow> nat" where
  "daysUntil c e = nat ((e - c + msPerDay - 1) div msPerDay)"

lemma daysUntil_step:
  assumes "c < e" "c + msPerDay \<le> c'"
  shows "Suc (daysUntil c' e) \<le> daysUntil c e"
proof -
  define q where "q = (e - c + 86400000 - 1) div 86400000"
  define q' where "q' = (e - c' + 86400000 - 1) div 86400000"
  have 1: "e - c + 86400000 - 1 < 86400000 * q + 86400000"
    unfolding q_def by (rule div_bounds) simp
  have 2: "86400000 * q' \<le> e - c' + 86400000 - 1"
    unfolding q'_def by (rule div_bounds) simp
  have 3: "c + 86400000 \<le> c'" using assms(2) unfolding msPerDay_def .
  have "q' < q" using 1 2 3 by linarith
  moreover have "0 < q" using 1 assms(1) by linarith
  ultimately show ?thesis unfolding daysUntil_def msPerDay_def q_def[symmetric] q'_def[symmetric]
    by linarith
qed

lemma SupabaseStorage_loop_length:
  "length (SupabaseStorage_loop b (Some e) dd md c) \<le> daysUntil c e"
proof (induction b "Some e" dd md c rule: SupabaseStorage_loop.induct)
  case (1 b dd md c)
  let ?n = "SupabaseStorage_getNextRecurrenceDate c (recurringPattern b)"
  show ?case
  proof (cases "isBefore c (Some e)")
    case False
    then have "SupabaseStorage_loop b (Some e) dd md c = []"
      using SupabaseStorage_loop_unfold[of b "Some e" dd md c] by presburger
    then show ?thesis by simp
  next
    case before: True
    then have "c < e" unfolding isBefore_def by simp
    then have s: "Suc (daysUntil ?n e) \<le> daysUntil c e"
      using SupabaseStorage_getNextRecurrenceDate_day_step[of c "recurringPattern b"]
      by (intro daysUntil_step)
    show ?thesis
    proof (cases "format_yyyy_MM_dd c \<in> dd")
      case True
      then have "SupabaseStorage_loop b (Some e) dd md c
                   = SupabaseStorage_loop b (Some e) dd md ?n"
        using before SupabaseStorage_loop_unfold[of b "Some e" dd md c] by presburger
      then show ?thesis using "1.hyps"(1)[OF before True] s by simp
    next
      case nd: False
      show ?thesis
      proof (cases "format_yyyy_MM_dd c \<in> md")
        case True
        then have "SupabaseStorage_loop b (Some e) dd md c
                     = SupabaseStorage_loop b (Some e) dd md ?n"
          using before nd SupabaseStorage_loop_unfold[of b "Some e" dd md c] by presburger
        then show ?thesis using "1.hyps"(2)[OF before nd True] s by simp
      next
        case nm: False
        then have "SupabaseStorage_loop b (Some e) dd md c
                     = SupabaseStorage_instance b c # SupabaseStorage_loop b (Some e) dd md ?n"
          using before nd SupabaseStorage_loop_unfold[of b "Some e" dd md c] by presburger
        then show ?thesis using "1.hyps"(3)[OF before nd nm] s by simp
      qed
    qed
  qed
qed

lemma SupabaseStorage_loop_Invalid: "SupabaseStorage_loop b None dd md c = []"
  using SupabaseStorage_loop_unfold[of b None dd md c] unfolding isBefore_def by simp

subsection \<open>The generators\<close>


lemma EnhancedMemStorage_seriesEndDate_le:
  "isBefore t (EnhancedMemStorage_seriesEndDate b E) \<Longrightarrow> t < E"
  unfolding EnhancedMemStorage_seriesEndDate_def isBefore_def Math_min_def Let_def
  by (auto split: if_splits option.splits)

lemma SupabaseStorage_generated_emitted:
  assumes "e \<in> set (SupabaseStorage_generateRecurringInstances b S E xs)"
  shows "SupabaseStorage_emitted b (SupabaseStorage_seriesEndDate b E)
           (set (map (\<lambda>ex. format_yyyy_MM_dd (exceptionDate ex))
                  (filter (\<lambda>ex. xType ex = ''deleted'') xs)))
           (set (map (\<lambda>ex. format_yyyy_MM_dd (exceptionDate ex))
                  (filter (\<lambda>ex. xType ex = ''modified'') xs)))
           (max (startDate b) S) e"
  using assms unfolding SupabaseStorage_generateRecurringInstances_def Let_def
  by (rule SupabaseStorage_loop_emitted)




lemma SupabaseStorage_generated_shadowed:
  assumes "e \<in> set (SupabaseStorage_generateRecurringInstances b S E xs)"
    and "ex \<in> set xs" and "xType ex = ''deleted'' \<or> xType ex = ''modified''"
  shows "format_yyyy_MM_dd (startDate e) \<noteq> format_yyyy_MM_dd (exceptionDate ex)"
proof -
  note em = SupabaseStorage_generated_emitted[OF assms(1)]
  show ?thesis
  proof (cases "xType ex = ''deleted''")
    case True
    then have "format_yyyy_MM_dd (exceptionDate ex)
                 \<in> set (map (\<lambda>ex. format_yyyy_MM_dd (exceptionDate ex))
                          (filter (\<lambda>ex. xType ex = ''deleted'') xs))"
      using assms(2) by auto
    then show ?thesis using em unfolding SupabaseStorage_emitted_def by metis
  next
    case False
    then have "format_yyyy_MM_dd (exceptionDate ex)
                 \<in> set (map (\<lambda>ex. format_yyyy_MM_dd (exceptionDate ex))
                          (filter (\<lambda>ex. xType ex = ''modified'') xs))"
      using assms(2,3) by auto
    then show ?thesis using em unfolding SupabaseStorage_emitted_def by metis
  qed
qed

lemma EnhancedMemStorage_generated_shadowed:
  assumes "e \<in> set (EnhancedMemStorage_generateRecurringInstances b S E dd md)"
  shows "toDateString (startDate e) \<notin> dd \<and> toDateString (startDate e) \<notin> md"
  using EnhancedMemStorage_loop_emitted[OF assms[unfolded
        EnhancedMemStorage_generateRecurringInstances_def]]
  unfolding EnhancedMemStorage_emitted_def by simp

lemma daysUntil_mono: "e \<le> e' \<Longrightarrow> daysUntil c e \<le> daysUntil c e'"
  unfolding daysUntil_def
  by (intro nat_mono zdiv_mono1) (simp_all add: msPerDay_def)

lemma SupabaseStorage_generated_length:
  "length (SupabaseStorage_generateRecurringInstances b S E xs)
     \<le> daysUntil (max (startDate b) S) E"
proof (cases "SupabaseStorage_seriesEndDate b E")
  case None
  then show ?thesis
    unfolding SupabaseStorage_generateRecurringInstances_def Let_def
    by (simp add: SupabaseStorage_loop_Invalid)
next
  case (Some x)
  have "x \<le> E"
    using Some unfolding SupabaseStorage_seriesEndDate_def Math_min_def Let_def
    by (auto split: if_splits option.splits)
  then have "daysUntil (max (startDate b) S) x \<le> daysUntil (max (startDate b) S) E"
    by (rule daysUntil_mono)
  then show ?thesis
    unfolding SupabaseStorage_generateRecurringInstances_def Let_def Some
    using SupabaseStorage_loop_length order_trans by blast
qed

lemma SupabaseStorage_loop_weekly_length:
  assumes "recurringPattern b = Some ''weekly''"
  shows "c + int n * (7 * msPerDay) \<le> e \<Longrightarrow> n \<le> length (SupabaseStorage_loop b (Some e) {} {} c)"
proof (induction n arbitrary: c)
  case 0
  show ?case by simp
next
  case (Suc n)
  let ?n = "SupabaseStorage_getNextRecurrenceDate c (recurringPattern b)"
  have nx: "?n = c + 7 * msPerDay"
    unfolding assms SupabaseStorage_getNextRecurrenceDate_def by (simp add: addWeeks_shift)
  have "c < e" using Suc.prems by (simp add: msPerDay_def algebra_simps)
  then have "isBefore c (Some e)" unfolding isBefore_def by simp
  then have u: "SupabaseStorage_loop b (Some e) {} {} c
             = SupabaseStorage_instance b c # SupabaseStorage_loop b (Some e) {} {} ?n"
    using SupabaseStorage_loop_unfold[of b "Some e" "{}" "{}" c] by simp
  have "?n + int n * (7 * msPerDay) \<le> e"
    unfolding nx using Suc.prems by (simp add: algebra_simps)
  then have "n \<le> length (SupabaseStorage_loop b (Some e) {} {} ?n)" by (rule Suc.IH)
  then show ?case unfolding u by simp
qed

lemma SupabaseStorage_loop_first:
  assumes "isBefore c se" "format_yyyy_MM_dd c \<notin> dd" "format_yyyy_MM_dd c \<notin> md"
  shows "SupabaseStorage_loop b se dd md c
           = SupabaseStorage_instance b c
               # SupabaseStorage_loop b se dd md
                   (SupabaseStorage_getNextRecurrenceDate c (recurringPattern b))"
  using assms SupabaseStorage_loop_unfold[of b se dd md c] by simp

lemma EnhancedMemStorage_loop_first:
  assumes "isBefore c se" "toDateString c \<notin> dd" "toDateString c \<notin> md"
  shows "EnhancedMemStorage_loop b se dd md 0 c
           = EnhancedMemStorage_instance b c
               # EnhancedMemStorage_loop b se dd md 1
                   (EnhancedMemStorage_getNextRecurrenceDate c (recurringPattern b))"
  using assms EnhancedMemStorage_loop_unfold[of b se dd md 0 c]
  by (simp add: maxIterations_def)

lemma EnhancedMemStorage_loop_weekly_length:
  assumes "recurringPattern b = Some ''weekly''"
  shows "c + int n * (7 * msPerDay) \<le> e \<Longrightarrow> i + n \<le> maxIterations
           \<Longrightarrow> n \<le> length (EnhancedMemStorage_loop b (Some e) {} {} i c)"
proof (induction n arbitrary: c i)
  case 0
  show ?case by simp
next
  case (Suc n)
  let ?n = "EnhancedMemStorage_getNextRecurrenceDate c (recurringPattern b)"
  have nx: "?n = c + 7 * msPerDay"
    unfolding assms EnhancedMemStorage_getNextRecurrenceDate_def by (simp add: setDate_shift)
  have "c < e" using Suc.prems(1) by (simp add: msPerDay_def algebra_simps)
  then have "isBefore c (Some e) \<and> i < maxIterations"
    using Suc.prems(2) unfolding isBefore_def by simp
  then have u: "EnhancedMemStorage_loop b (Some e) {} {} i c
             = EnhancedMemStorage_instance b c
                 # EnhancedMemStorage_loop b (Some e) {} {} (i + 1) ?n"
    using EnhancedMemStorage_loop_unfold[of b "Some e" "{}" "{}" i c] by simp
  have "?n + int n * (7 * msPerDay) \<le> e"
    unfolding nx using Suc.prems(1) by (simp add: algebra_simps)
  moreover have "(i + 1) + n \<le> maxIterations" using Suc.prems(2) by simp
  ultimately have "n \<le> length (EnhancedMemStorage_loop b (Some e) {} {} (i + 1) ?n)"
    by (rule Suc.IH)
  then show ?case unfolding u by simp
qed

section \<open>Facts about the operations on the stores\<close>

lemma Map_get_Map_set: "Map_get (Map_set m k v) k' = (if k' = k then Some v else Map_get m k')"
  unfolding Map_get_def by (induction m) auto

lemma pushException_get:
  "Map_get (eventExceptions (EnhancedMemStorage_pushException s p ex)) p
     = Some ((case Map_get (eventExceptions s) p of None \<Rightarrow> [] | Some xs \<Rightarrow> xs) @ [ex])"
proof (cases "Map_has (eventExceptions s) p")
  case True
  then obtain xs where "Map_get (eventExceptions s) p = Some xs"
    unfolding Map_has_def Map_get_def by (metis domIff dom_map_of_conv_image_fst not_Some_eq)
  then show ?thesis using True
    unfolding EnhancedMemStorage_pushException_def Let_def by (simp add: Map_get_Map_set)
next
  case False
  then have "Map_get (eventExceptions s) p = None"
    unfolding Map_has_def Map_get_def by (simp add: map_of_eq_None_iff)
  then show ?thesis using False
    unfolding EnhancedMemStorage_pushException_def Let_def by (simp add: Map_get_Map_set)
qed

lemma pushException_events:
  "events (EnhancedMemStorage_pushException s p ex) = events s"
  unfolding EnhancedMemStorage_pushException_def Let_def by simp

lemma insertExceptionRow_rows:
  "insertExceptionRow s row = Inr s' \<Longrightarrow>
     exceptionRows s' = exceptionRows s @ [row] \<and> eventRows s' = eventRows s"
  unfolding insertExceptionRow_def by (auto split: if_splits)

lemma insertEventRow_rows:
  "insertEventRow s row = Inr s' \<Longrightarrow>
     eventRows s' = eventRows s @ [row] \<and> exceptionRows s' = exceptionRows s"
  unfolding insertEventRow_def by (auto split: if_splits)

lemma SupabaseStorage_delete_instance_rows:
  assumes "SupabaseStorage_deleteRecurringInstance s i now p d = Inr (s', r)"
  shows "exceptionRows s' = exceptionRows s
           @ [\<lparr> xid = i, xParentEventId = p, exceptionDate = d, xType = ''deleted'',
                 modifiedEventId = None, xCreatedAt = Some now \<rparr>]"
    and "eventRows s' = eventRows s"
  using assms insertExceptionRow_rows
  unfolding SupabaseStorage_deleteRecurringInstance_def
  by (auto split: sum.splits)

lemma SupabaseStorage_update_instance_rows:
  assumes "SupabaseStorage_updateRecurringInstance s ei xi now p d u = Inr (s', Some ev)"
  shows "exceptionRows s' = exceptionRows s
           @ [\<lparr> xid = xi, xParentEventId = p, exceptionDate = d, xType = ''modified'',
                 modifiedEventId = Some ei, xCreatedAt = Some now \<rparr>]"
    and "eventRows s' = eventRows s @ [ev]"
  using assms insertExceptionRow_rows insertEventRow_rows
  unfolding SupabaseStorage_updateRecurringInstance_def Let_def
  by (auto split: sum.splits option.splits)


section \<open>A store to run the operations on\<close>

text \<open>
  The weekly series of the specification: \<open>Standup\<close>, every week from Monday
  2024-03-04 09:00 with no end, stored under the id \<open>m1\<close>. The time value
  1709542800000 is 2024-03-04 09:00, 1710147600000 is 2024-03-11 09:00, and
  1710752400000 is 2024-03-18 09:00.
\<close>

definition standup :: Event where
  "standup =
     \<lparr> eid = ''m1'', title = ''Standup'', description = None,
       startDate = 1709542800000, endDate = None, isRecurring = Some True,
       recurringPattern = Some ''weekly'', recurringWeeks = Some ''indefinite'',
       parentEventId = None, originalDate = None, createdAt = None \<rparr>"

definition deleted_0311 :: "string \<Rightarrow> EventException" where
  "deleted_0311 i =
     \<lparr> xid = i, xParentEventId = ''m1'', exceptionDate = 1710147600000,
       xType = ''deleted'', modifiedEventId = None, xCreatedAt = Some 0 \<rparr>"

definition db_standup :: DbState where
  "db_standup = \<lparr> eventRows = [standup], exceptionRows = [] \<rparr>"

definition db_standup_deleted_once :: DbState where
  "db_standup_deleted_once =
     \<lparr> eventRows = [standup], exceptionRows = [deleted_0311 ''x1''] \<rparr>"

definition db_standup_deleted_twice :: DbState where
  "db_standup_deleted_twice =
     \<lparr> eventRows = [standup], exceptionRows = [deleted_0311 ''x1'', deleted_0311 ''x2''] \<rparr>"

lemma delete_once:
  "SupabaseStorage_deleteRecurringInstance db_standup ''x1'' 0 ''m1'' 1710147600000
     = Inr (db_standup_deleted_once, True)"
  by (simp add: SupabaseStorage_deleteRecurringInstance_def insertExceptionRow_def
        db_standup_def db_standup_deleted_once_def deleted_0311_def standup_def)

lemma delete_twice:
  "SupabaseStorage_deleteRecurringInstance db_standup_deleted_once ''x2'' 0 ''m1'' 1710147600000
     = Inr (db_standup_deleted_twice, True)"
  by (simp add: SupabaseStorage_deleteRecurringInstance_def insertExceptionRow_def
        db_standup_deleted_twice_def db_standup_deleted_once_def deleted_0311_def standup_def)

definition mem_standup :: MemState where
  "mem_standup = \<lparr> events = [(''m1'', standup)], eventExceptions = [] \<rparr>"

definition noUpdates :: PartialInsertEvent where
  "noUpdates =
     \<lparr> uTitle = None, uDescription = None, uStartDate = None, uEndDate = None,
       uIsRecurring = None, uRecurringPattern = None, uRecurringWeeks = None,
       uParentEventId = None, uOriginalDate = None \<rparr>"

definition modified_0311 :: "string \<Rightarrow> Event" where
  "modified_0311 i =
     \<lparr> eid = i, title = ''Standup'', description = None,
       startDate = 1710147600000, endDate = None, isRecurring = Some False,
       recurringPattern = None, recurringWeeks = None,
       parentEventId = Some ''m1'', originalDate = Some 1710147600000,
       createdAt = Some 0 \<rparr>"

definition modifiedException_0311 :: "string \<Rightarrow> string \<Rightarrow> EventException" where
  "modifiedException_0311 i e =
     \<lparr> xid = i, xParentEventId = ''m1'', exceptionDate = 1710147600000,
       xType = ''modified'', modifiedEventId = Some e, xCreatedAt = Some 0 \<rparr>"

definition db_standup_modified :: DbState where
  "db_standup_modified =
     \<lparr> eventRows = [standup, modified_0311 ''e1''],
       exceptionRows = [modifiedException_0311 ''x1'' ''e1''] \<rparr>"

definition mem_standup_modified :: MemState where
  "mem_standup_modified =
     \<lparr> events = [(''m1'', standup), (''e1'', modified_0311 ''e1'')],
       eventExceptions =
         [(''m1'', [\<lparr> mExceptionDate = 1710147600000, mType = ''modified'',
                       mModifiedEventId = Some ''e1'' \<rparr>])] \<rparr>"

lemma db_update_standup:
  "SupabaseStorage_updateRecurringInstance db_standup ''e1'' ''x1'' 0 ''m1'' 1710147600000
     noUpdates = Inr (db_standup_modified, Some (modified_0311 ''e1''))"
  by (simp add: SupabaseStorage_updateRecurringInstance_def SupabaseStorage_getEvent_def
        Let_def insertEventRow_def insertExceptionRow_def nullish_def db_standup_def
        db_standup_modified_def modified_0311_def modifiedException_0311_def standup_def
        noUpdates_def)

lemma mem_update_standup:
  "EnhancedMemStorage_updateRecurringInstance mem_standup ''e1'' 0 ''m1'' 1710147600000
     noUpdates = (mem_standup_modified, Some (modified_0311 ''e1''))"
  by (simp add: EnhancedMemStorage_updateRecurringInstance_def MemStorage_getEvent_def
        Let_def EnhancedMemStorage_pushException_def Map_get_def Map_has_def nullish_def
        mem_standup_def mem_standup_modified_def modified_0311_def standup_def noUpdates_def)

definition db_standup_orphan :: DbState where
  "db_standup_orphan = \<lparr> eventRows = [modified_0311 ''e1''], exceptionRows = [] \<rparr>"

definition mem_standup_orphan :: MemState where
  "mem_standup_orphan =
     \<lparr> events = [(''e1'', modified_0311 ''e1'')],
       eventExceptions =
         [(''m1'', [\<lparr> mExceptionDate = 1710147600000, mType = ''modified'',
                       mModifiedEventId = Some ''e1'' \<rparr>])] \<rparr>"

text \<open>
  The reads of March 2024: the window from 2024-03-01 00:00 (1709251200000) to
  2024-03-22 00:00 (1711065600000), the same window closed on the occurrence of
  2024-03-11 09:00, and the window that opens on 2024-03-06 00:00
  (1709683200000), after the start of the series.
\<close>

definition mem_standup_deleted :: MemState where
  "mem_standup_deleted =
     \<lparr> events = [(''m1'', standup)],
       eventExceptions =
         [(''m1'', [\<lparr> mExceptionDate = 1710147600000, mType = ''deleted'',
                       mModifiedEventId = None \<rparr>])] \<rparr>"

definition occurrence_memory :: "string \<Rightarrow> int \<Rightarrow> Event" where
  "occurrence_memory i t = standup \<lparr> eid := i, startDate := t \<rparr>"

definition occurrence_db :: "string \<Rightarrow> int \<Rightarrow> Event" where
  "occurrence_db i t =
     standup \<lparr> eid := i, startDate := t, parentEventId := Some ''m1'',
               originalDate := Some t \<rparr>"



lemma db_range_march_modified:
  "SupabaseStorage_getEventsByDateRange db_standup_modified 0 1709251200000 1711065600000
     = [occurrence_db ''m1-recur-2024-03-04'' 1709542800000,
        modified_0311 ''e1'', modified_0311 ''e1'',
        occurrence_db ''m1-recur-2024-03-18'' 1710752400000]"
  by code_simp

lemma db_range_late_start:
  "SupabaseStorage_getEventsByDateRange db_standup 0 1709683200000 1711065600000 = []"
  by code_simp

lemma mem_range_march_deleted:
  "MemStorage_getEventsByDateRange mem_standup_deleted 1709251200000 1711065600000
     = [standup, occurrence_memory ''m1-recur-1'' 1710147600000,
        occurrence_memory ''m1-recur-2'' 1710752400000]"
  by code_simp


text \<open>
  The generators on the window that opens on Wednesday 2024-03-06, with the
  occurrence of Monday 2024-03-11 deleted, and on the window that opens on
  2024-03-11 00:00 (1710115200000) itself.
\<close>

lemma db_generate_anchored:
  "SupabaseStorage_generateRecurringInstances standup 1709683200000 1711065600000
     [deleted_0311 ''x1'']
     = [occurrence_db ''m1-recur-2024-03-06'' 1709683200000,
        occurrence_db ''m1-recur-2024-03-13'' 1710288000000,
        occurrence_db ''m1-recur-2024-03-20'' 1710892800000]"
  by code_simp

lemma mem_generate_anchored:
  "EnhancedMemStorage_generateRecurringInstances standup 1709683200000 1711065600000
     {''Mon Mar 11 2024''} {}
     = [occurrence_db ''m1-recur-1709683200000'' 1709683200000,
        occurrence_db ''m1-recur-1710288000000'' 1710288000000,
        occurrence_db ''m1-recur-1710892800000'' 1710892800000]"
  by code_simp

lemma db_generate_anchored_on_deleted_day:
  "SupabaseStorage_generateRecurringInstances standup 1710115200000 1711065600000
     [deleted_0311 ''x1'']
     = [occurrence_db ''m1-recur-2024-03-18'' 1710720000000]"
  by code_simp

section \<open>The claims\<close>

subsection \<open>C1: exceptions shadow the occurrences of their day\<close>

text \<open>
  C1. An occurrence of a series whose day carries a \<open>deleted\<close> exception does
  not appear in what \<open>getEvents\<close> and \<open>getEventsByDateRange\<close> return; when the
  exception is \<open>modified\<close>, the generated occurrence is absent and the standalone
  modified event appears exactly once. The two generators do skip the days that
  carry an exception (lemmas \<open>SupabaseStorage_generated_shadowed\<close> and
  \<open>EnhancedMemStorage_generated_shadowed\<close>), but the reads around them break
  the claim in two places. \<open>SupabaseStorage.expandRecurringEvents\<close> pushes the
  modified event of 2024-03-11 once as a row that is not recurring and once more
  from its second query, so the read of March returns it twice. And
  \<open>EnhancedMemStorage\<close> inherits \<open>getEventsByDateRange\<close> from \<open>MemStorage\<close>, which
  never reads the exceptions: the occurrence of 2024-03-11, deleted, is returned.
\<close>

theorem C1_exceptions_not_shadowed:
  "SupabaseStorage_getEventsByDateRange db_standup_modified 0 1709251200000 1711065600000
     = [occurrence_db ''m1-recur-2024-03-04'' 1709542800000,
        modified_0311 ''e1'', modified_0311 ''e1'',
        occurrence_db ''m1-recur-2024-03-18'' 1710752400000]
   \<and> MemStorage_getEventsByDateRange mem_standup_deleted 1709251200000 1711065600000
     = [standup, occurrence_memory ''m1-recur-1'' 1710147600000,
        occurrence_memory ''m1-recur-2'' 1710752400000]
   \<and> startDate (occurrence_memory ''m1-recur-1'' 1710147600000) = 1710147600000
   \<and> Map_get (eventExceptions mem_standup_deleted) ''m1''
       = Some [\<lparr> mExceptionDate = 1710147600000, mType = ''deleted'',
                  mModifiedEventId = None \<rparr>]"
  using db_range_march_modified mem_range_march_deleted
  by (simp add: occurrence_memory_def mem_standup_deleted_def Map_get_def)

subsection \<open>C2: the generators end, and the cap on iterations\<close>

text \<open>
  The two generators are total functions: the loop of the memory backend ends
  by its counter of iterations, the loop of the database backend, which has no
  counter, because every step moves the current date at least one day forward
  (lemma \<open>SupabaseStorage_getNextRecurrenceDate_day_step\<close>, on which the
  termination of \<open>SupabaseStorage_loop\<close> rests). The memory backend runs at most
  500 iterations and so emits at most 500 occurrences, whatever the window. The
  database backend emits at most one occurrence for each day, whole or begun,
  between the cursor and the end of the window.
\<close>

lemma generators_are_bounded:
  "length (EnhancedMemStorage_generateRecurringInstances b S E deletedDates modifiedDates)
     \<le> maxIterations
   \<and> maxIterations = 500
   \<and> length (SupabaseStorage_generateRecurringInstances b S E exceptions)
       \<le> daysUntil (max (startDate b) S) E"
  using EnhancedMemStorage_loop_length[of b "EnhancedMemStorage_seriesEndDate b E"
      deletedDates modifiedDates 0 "max (startDate b) S"]
    SupabaseStorage_generated_length[of b S E exceptions]
  unfolding EnhancedMemStorage_generateRecurringInstances_def
  by (simp add: maxIterations_def)

text \<open>
  The weekly series with no end, read over fifty years from 2024-03-01
  (1709251200000 to 3286051200000): the memory backend stops at 500 occurrences.
\<close>

lemma mem_generate_fifty_years:
  "length (EnhancedMemStorage_generateRecurringInstances standup
             1709251200000 3286051200000 {} {}) = 500"
proof -
  have p: "recurringPattern standup = Some ''weekly''" by (simp add: standup_def)
  have a: "1709542800000 + int 500 * (7 * msPerDay) \<le> 3286051200000"
    by (simp add: msPerDay_def)
  have b: "0 + 500 \<le> maxIterations" by (simp add: maxIterations_def)
  from EnhancedMemStorage_loop_weekly_length[OF p a b]
  have "500 \<le> length (EnhancedMemStorage_generateRecurringInstances standup
                     1709251200000 3286051200000 {} {})"
    unfolding EnhancedMemStorage_generateRecurringInstances_def
      EnhancedMemStorage_seriesEndDate_def
    by (simp add: standup_def truthyString_def)
  moreover have "length (EnhancedMemStorage_generateRecurringInstances standup
                     1709251200000 3286051200000 {} {}) \<le> 500"
    using EnhancedMemStorage_loop_length[of standup
        "EnhancedMemStorage_seriesEndDate standup 3286051200000" "{}" "{}" 0
        "max (startDate standup) 1709251200000"]
    unfolding EnhancedMemStorage_generateRecurringInstances_def
    by (simp add: maxIterations_def)
  ultimately show ?thesis by simp
qed

text \<open>
  C2. For every recurring master, also one with no end, and every bounded
  window, the generator ends with a finite list, and a cap of 500 iterations
  cuts the series short once it is reached, so that a weekly series with no end
  read over fifty years stays within that cap.
  \<open>EnhancedMemStorage.generateRecurringInstances\<close> counts its iterations against
  \<open>maxIterations = 500\<close>, with the comment that this prevents infinite loops, and
  returns 500 occurrences for that read (lemma \<open>mem_generate_fifty_years\<close>).
  \<open>SupabaseStorage.generateRecurringInstances\<close> has no counter: for the same
  series and the same window it returns more than 500 occurrences.
\<close>

theorem C2_counterexample:
  "recurringWeeks standup = Some ''indefinite'' \<and> recurringPattern standup = Some ''weekly''
   \<and> 3286051200000 = 1709251200000 + 50 * 365 * msPerDay
   \<and> 500 < length (SupabaseStorage_generateRecurringInstances standup
                     1709251200000 3286051200000 [])"
proof -
  have p: "recurringPattern standup = Some ''weekly''" by (simp add: standup_def)
  have "1709542800000 + int 501 * (7 * msPerDay) \<le> 3286051200000"
    by (simp add: msPerDay_def)
  from SupabaseStorage_loop_weekly_length[OF p this]
  have "501 \<le> length (SupabaseStorage_generateRecurringInstances standup
                     1709251200000 3286051200000 [])"
    unfolding SupabaseStorage_generateRecurringInstances_def Let_def
      SupabaseStorage_seriesEndDate_def
    by (simp add: standup_def truthyString_def)
  then show ?thesis by (simp add: standup_def msPerDay_def)
qed

subsection \<open>C3: one exception for each parent and date\<close>

text \<open>
  The invariant of the specification: no two exceptions share their parent and
  their exception date.
\<close>

definition uniqueExceptions :: "DbState \<Rightarrow> bool" where
  "uniqueExceptions s =
     distinct (map (\<lambda>x. (xParentEventId x, exceptionDate x)) (exceptionRows s))"

definition SupabaseStorage_exceptionsAt :: "DbState \<Rightarrow> string \<Rightarrow> int \<Rightarrow> EventException list" where
  "SupabaseStorage_exceptionsAt s p d =
     filter (\<lambda>x. xParentEventId x = p \<and> exceptionDate x = d) (exceptionRows s)"

definition EnhancedMemStorage_exceptionsAt :: "MemState \<Rightarrow> string \<Rightarrow> int \<Rightarrow> MemException list" where
  "EnhancedMemStorage_exceptionsAt s p d =
     filter (\<lambda>x. mExceptionDate x = d)
       (case Map_get (eventExceptions s) p of None \<Rightarrow> [] | Some xs \<Rightarrow> xs)"

text \<open>
  C3, as the code has it. Neither backend looks for an earlier exception of the
  same parent and date, and the schema declares no unique key on the pair:
  every call of \<open>deleteRecurringInstance\<close> that succeeds, and every call of
  \<open>updateRecurringInstance\<close> on a parent that exists, adds one more exception for
  that parent and date to those already there.
\<close>

theorem C3_exceptions_accumulate:
  "(SupabaseStorage_deleteRecurringInstance s i now p d = Inr (s', r) \<longrightarrow>
      length (SupabaseStorage_exceptionsAt s' p d)
        = length (SupabaseStorage_exceptionsAt s p d) + 1)
   \<and> (SupabaseStorage_updateRecurringInstance s ei xi now p d u = Inr (s'', Some ev) \<longrightarrow>
      length (SupabaseStorage_exceptionsAt s'' p d)
        = length (SupabaseStorage_exceptionsAt s p d) + 1)
   \<and> length (EnhancedMemStorage_exceptionsAt
                (fst (EnhancedMemStorage_deleteRecurringInstance m p d)) p d)
        = length (EnhancedMemStorage_exceptionsAt m p d) + 1
   \<and> (MemStorage_getEvent m p \<noteq> None \<longrightarrow>
      length (EnhancedMemStorage_exceptionsAt
                (fst (EnhancedMemStorage_updateRecurringInstance m uuid now p d u)) p d)
        = length (EnhancedMemStorage_exceptionsAt m p d) + 1)"
proof (intro conjI impI)
  assume "SupabaseStorage_deleteRecurringInstance s i now p d = Inr (s', r)"
  from SupabaseStorage_delete_instance_rows(1)[OF this]
  show "length (SupabaseStorage_exceptionsAt s' p d)
          = length (SupabaseStorage_exceptionsAt s p d) + 1"
    unfolding SupabaseStorage_exceptionsAt_def by simp
next
  assume "SupabaseStorage_updateRecurringInstance s ei xi now p d u = Inr (s'', Some ev)"
  from SupabaseStorage_update_instance_rows(1)[OF this]
  show "length (SupabaseStorage_exceptionsAt s'' p d)
          = length (SupabaseStorage_exceptionsAt s p d) + 1"
    unfolding SupabaseStorage_exceptionsAt_def by simp
next
  show "length (EnhancedMemStorage_exceptionsAt
                (fst (EnhancedMemStorage_deleteRecurringInstance m p d)) p d)
        = length (EnhancedMemStorage_exceptionsAt m p d) + 1"
    unfolding EnhancedMemStorage_exceptionsAt_def EnhancedMemStorage_deleteRecurringInstance_def
    by (simp add: pushException_get)
next
  assume "MemStorage_getEvent m p \<noteq> None"
  then obtain pe where pe: "MemStorage_getEvent m p = Some pe" by auto
  show "length (EnhancedMemStorage_exceptionsAt
                (fst (EnhancedMemStorage_updateRecurringInstance m uuid now p d u)) p d)
        = length (EnhancedMemStorage_exceptionsAt m p d) + 1"
    unfolding EnhancedMemStorage_exceptionsAt_def EnhancedMemStorage_updateRecurringInstance_def
      pe Let_def
    by (simp add: pushException_get)
qed

theorem C3_witness:
  "SupabaseStorage_deleteRecurringInstance db_standup ''x1'' 0 ''m1'' 1710147600000
       = Inr (db_standup_deleted_once, True)
   \<and> length (SupabaseStorage_exceptionsAt db_standup_deleted_once ''m1'' 1710147600000) = 1
   \<and> SupabaseStorage_updateRecurringInstance db_standup ''e1'' ''x1'' 0 ''m1'' 1710147600000
         noUpdates = Inr (db_standup_modified, Some (modified_0311 ''e1''))
   \<and> length (SupabaseStorage_exceptionsAt db_standup_modified ''m1'' 1710147600000) = 1
   \<and> MemStorage_getEvent mem_standup ''m1'' \<noteq> None
   \<and> length (EnhancedMemStorage_exceptionsAt
                (fst (EnhancedMemStorage_updateRecurringInstance mem_standup ''e1'' 0 ''m1''
                        1710147600000 noUpdates)) ''m1'' 1710147600000) = 1"
  using C3_exceptions_accumulate[where s = db_standup and i = "''x1''" and now = 0
      and p = "''m1''" and d = 1710147600000 and s' = db_standup_deleted_once and r = True
      and ei = "''e1''" and xi = "''x1''" and u = noUpdates and s'' = db_standup_modified
      and ev = "modified_0311 ''e1''" and m = mem_standup and uuid = "''e1''"]
    delete_once db_update_standup
  by (simp add: SupabaseStorage_exceptionsAt_def EnhancedMemStorage_exceptionsAt_def
        db_standup_def mem_standup_def MemStorage_getEvent_def Map_get_def)

text \<open>
  C3 as stated fails: deleting the occurrence of 2024-03-11 twice leaves two
  exceptions with the same parent and the same date.
\<close>

theorem C3_counterexample:
  "uniqueExceptions db_standup
   \<and> SupabaseStorage_deleteRecurringInstance db_standup ''x1'' 0 ''m1'' 1710147600000
       = Inr (db_standup_deleted_once, True)
   \<and> SupabaseStorage_deleteRecurringInstance db_standup_deleted_once ''x2'' 0 ''m1''
         1710147600000
       = Inr (db_standup_deleted_twice, True)
   \<and> \<not> uniqueExceptions db_standup_deleted_twice"
  using delete_once delete_twice
  by (simp add: uniqueExceptions_def db_standup_def db_standup_deleted_twice_def
        deleted_0311_def)

subsection \<open>C4: deleting a series\<close>

text \<open>
  C4. Deleting a master event removes every exception whose parent it is and
  every standalone modified event whose \<open>parentEventId\<close> it is, so that no stored
  record references the deleted master and later reads show none of its modified
  instances. In the database the exceptions go with the master, by the cascading
  foreign key, but \<open>events.parent_event_id\<close> is no foreign key: the modified
  event of 2024-03-11 stays, still naming \<open>m1\<close> as its parent, and \<open>getEvents\<close>
  returns it. \<open>MemStorage.deleteEvent\<close>, which \<open>EnhancedMemStorage\<close> inherits,
  deletes the entry of the master alone: the modified event and the exception
  list of \<open>m1\<close> both stay.
\<close>

theorem C4_delete_series_leaves_orphans:
  "SupabaseStorage_deleteEvent db_standup_modified ''m1'' = (db_standup_orphan, True)
   \<and> eventRows db_standup_orphan = [modified_0311 ''e1'']
   \<and> parentEventId (modified_0311 ''e1'') = Some ''m1''
   \<and> SupabaseStorage_getEvent db_standup_orphan ''m1'' = None
   \<and> SupabaseStorage_getEvents db_standup_orphan 1709251200000
       = [modified_0311 ''e1'', modified_0311 ''e1'']
   \<and> MemStorage_deleteEvent mem_standup_modified ''m1'' = (mem_standup_orphan, True)
   \<and> EnhancedMemStorage_getEvents mem_standup_orphan 1709251200000 = [modified_0311 ''e1'']"
  by (simp add: SupabaseStorage_deleteEvent_def db_standup_modified_def db_standup_orphan_def
        modified_0311_def modifiedException_0311_def standup_def
        SupabaseStorage_getEvent_def SupabaseStorage_getEvents_def
        SupabaseStorage_expandRecurringEvents_def SupabaseStorage_expandOne_def
        SupabaseStorage_modifiedEvents_def sortByStartDate_def truthyBool_def Let_def
        MemStorage_deleteEvent_def Map_delete_def Map_has_def mem_standup_modified_def
        mem_standup_orphan_def EnhancedMemStorage_getEvents_def
        EnhancedMemStorage_expandRecurringEvents_def EnhancedMemStorage_expandOne_def
        Map_values_def)

subsection \<open>C5: the occurrences returned lie in the window\<close>




subsection \<open>C6: a series that starts before the window\<close>

text \<open>
  C6. In a range query every recurring master is passed to the generator, with
  the cursor at the later of its start and the start of the window, so a series
  that starts before the window still yields its occurrences inside it.
  \<open>SupabaseStorage.getEventsByDateRange\<close> selects the rows whose own start date
  lies in the window before it expands anything: the weekly series that starts
  on 2024-03-04 is not passed to the generator for the window that opens on
  2024-03-06, and the read returns nothing.
\<close>

theorem C6_master_before_window_not_expanded:
  "startDate standup < 1709683200000
   \<and> truthyBool (isRecurring standup)
   \<and> eventRows db_standup = [standup]
   \<and> SupabaseStorage_getEventsByDateRange db_standup 0 1709683200000 1711065600000 = []"
  using db_range_late_start
  by (simp add: standup_def db_standup_def truthyBool_def)

subsection \<open>C7: deleting one occurrence of a parent that does not exist\<close>

text \<open>
  The database backend rejects the call through the foreign key of
  \<open>parent_event_id\<close>, and writes nothing.
\<close>

lemma SupabaseStorage_delete_instance_missing_parent:
  "SupabaseStorage_deleteRecurringInstance \<lparr> eventRows = [], exceptionRows = [] \<rparr>
     ''x1'' 0 ''ghost'' 1710147600000 = Inl ForeignKeyViolation"
  by (simp add: SupabaseStorage_deleteRecurringInstance_def insertExceptionRow_def)

text \<open>
  C7. deleteInstance(parentId, occurrenceDate) inserts an exception of type
  \<open>deleted\<close> for the occurrence date when the parent exists, and fails, writing
  no exception record, when parentId references no existing event.
  \<open>EnhancedMemStorage.deleteRecurringInstance\<close> does not look the parent up: on a
  store with no event at all it records the exception under the unknown id and
  returns true.
\<close>

theorem C7_memory_delete_instance_missing_parent:
  "EnhancedMemStorage_deleteRecurringInstance \<lparr> events = [], eventExceptions = [] \<rparr>
     ''ghost'' 1710147600000
   = (\<lparr> events = [],
        eventExceptions =
          [(''ghost'', [\<lparr> mExceptionDate = 1710147600000, mType = ''deleted'',
                          mModifiedEventId = None \<rparr>])] \<rparr>, True)"
  by (simp add: EnhancedMemStorage_deleteRecurringInstance_def
        EnhancedMemStorage_pushException_def Map_has_def Map_get_def)

subsection \<open>C8: editing one occurrence\<close>

text \<open>
  C8, as the code has it. \<open>updateRecurringInstance\<close> returns null and writes
  nothing when the parent does not exist. Otherwise it stores and returns a new
  event under the new id whose title, description and end date are those of the
  updates or else of the parent, whose start date is that of the updates or else
  the occurrence date (not the start date of the parent), with \<open>isRecurring\<close>
  false, \<open>recurringPattern\<close> and \<open>recurringWeeks\<close> null, \<open>parentEventId\<close> the
  parent id and \<open>originalDate\<close> the occurrence date; and it adds an exception of
  type \<open>modified\<close> for the occurrence date that points to the new event. In the
  database backend the two inserts succeed when the two generated ids are new.
\<close>

theorem C8_update_instance_contract:
  "(MemStorage_getEvent m p = None \<longrightarrow>
      EnhancedMemStorage_updateRecurringInstance m uuid now p d u = (m, None))
   \<and> (SupabaseStorage_getEvent s p = None \<longrightarrow>
      SupabaseStorage_updateRecurringInstance s ei xi now p d u = Inr (s, None))
   \<and> (MemStorage_getEvent m p = Some parent \<longrightarrow>
      (\<exists>m' ev. EnhancedMemStorage_updateRecurringInstance m uuid now p d u = (m', Some ev)
         \<and> eid ev = uuid
         \<and> title ev = nullish (uTitle u) (title parent)
         \<and> description ev = (if uDescription u = None then description parent
                               else uDescription u)
         \<and> startDate ev = nullish (uStartDate u) d
         \<and> endDate ev = (if uEndDate u = None then endDate parent else uEndDate u)
         \<and> isRecurring ev = Some False
         \<and> recurringPattern ev = None \<and> recurringWeeks ev = None
         \<and> parentEventId ev = Some p \<and> originalDate ev = Some d
         \<and> MemStorage_getEvent m' uuid = Some ev
         \<and> Map_get (eventExceptions m') p
             = Some ((case Map_get (eventExceptions m) p of None \<Rightarrow> [] | Some xs \<Rightarrow> xs)
                      @ [\<lparr> mExceptionDate = d, mType = ''modified'',
                            mModifiedEventId = Some uuid \<rparr>])))
   \<and> (SupabaseStorage_getEvent s p = Some parent
        \<and> ei \<notin> eid ` set (eventRows s) \<and> xi \<notin> xid ` set (exceptionRows s) \<longrightarrow>
      (\<exists>s' ev. SupabaseStorage_updateRecurringInstance s ei xi now p d u = Inr (s', Some ev)
         \<and> eid ev = ei
         \<and> title ev = nullish (uTitle u) (title parent)
         \<and> description ev = (if uDescription u = None then description parent
                               else uDescription u)
         \<and> startDate ev = nullish (uStartDate u) d
         \<and> endDate ev = (if uEndDate u = None then endDate parent else uEndDate u)
         \<and> isRecurring ev = Some False
         \<and> recurringPattern ev = None \<and> recurringWeeks ev = None
         \<and> parentEventId ev = Some p \<and> originalDate ev = Some d
         \<and> eventRows s' = eventRows s @ [ev]
         \<and> exceptionRows s'
             = exceptionRows s
                 @ [\<lparr> xid = xi, xParentEventId = p, exceptionDate = d, xType = ''modified'',
                       modifiedEventId = Some ei, xCreatedAt = Some now \<rparr>]))"
proof (intro conjI impI)
  assume "MemStorage_getEvent m p = None"
  then show "EnhancedMemStorage_updateRecurringInstance m uuid now p d u = (m, None)"
    unfolding EnhancedMemStorage_updateRecurringInstance_def by simp
next
  assume "SupabaseStorage_getEvent s p = None"
  then show "SupabaseStorage_updateRecurringInstance s ei xi now p d u = Inr (s, None)"
    unfolding SupabaseStorage_updateRecurringInstance_def by simp
next
  assume pe: "MemStorage_getEvent m p = Some parent"
  show "\<exists>m' ev. EnhancedMemStorage_updateRecurringInstance m uuid now p d u = (m', Some ev)
         \<and> eid ev = uuid
         \<and> title ev = nullish (uTitle u) (title parent)
         \<and> description ev = (if uDescription u = None then description parent
                               else uDescription u)
         \<and> startDate ev = nullish (uStartDate u) d
         \<and> endDate ev = (if uEndDate u = None then endDate parent else uEndDate u)
         \<and> isRecurring ev = Some False
         \<and> recurringPattern ev = None \<and> recurringWeeks ev = None
         \<and> parentEventId ev = Some p \<and> originalDate ev = Some d
         \<and> MemStorage_getEvent m' uuid = Some ev
         \<and> Map_get (eventExceptions m') p
             = Some ((case Map_get (eventExceptions m) p of None \<Rightarrow> [] | Some xs \<Rightarrow> xs)
                      @ [\<lparr> mExceptionDate = d, mType = ''modified'',
                            mModifiedEventId = Some uuid \<rparr>])"
    unfolding EnhancedMemStorage_updateRecurringInstance_def pe Let_def
    by (simp add: pushException_get pushException_events MemStorage_getEvent_def
          Map_get_Map_set split: option.splits)
next
  assume a: "SupabaseStorage_getEvent s p = Some parent
        \<and> ei \<notin> eid ` set (eventRows s) \<and> xi \<notin> xid ` set (exceptionRows s)"
  then have pe: "SupabaseStorage_getEvent s p = Some parent" by simp
  then have "p \<in> eid ` set (eventRows s)"
    unfolding SupabaseStorage_getEvent_def
    by (auto split: list.splits simp: filter_eq_Cons_iff)
  then show "\<exists>s' ev. SupabaseStorage_updateRecurringInstance s ei xi now p d u
                         = Inr (s', Some ev)
         \<and> eid ev = ei
         \<and> title ev = nullish (uTitle u) (title parent)
         \<and> description ev = (if uDescription u = None then description parent
                               else uDescription u)
         \<and> startDate ev = nullish (uStartDate u) d
         \<and> endDate ev = (if uEndDate u = None then endDate parent else uEndDate u)
         \<and> isRecurring ev = Some False
         \<and> recurringPattern ev = None \<and> recurringWeeks ev = None
         \<and> parentEventId ev = Some p \<and> originalDate ev = Some d
         \<and> eventRows s' = eventRows s @ [ev]
         \<and> exceptionRows s'
             = exceptionRows s
                 @ [\<lparr> xid = xi, xParentEventId = p, exceptionDate = d, xType = ''modified'',
                       modifiedEventId = Some ei, xCreatedAt = Some now \<rparr>]"
    using a
    unfolding SupabaseStorage_updateRecurringInstance_def pe Let_def
      insertEventRow_def insertExceptionRow_def
    by (simp split: option.splits)
qed

theorem C8_witness:
  "MemStorage_getEvent mem_standup ''ghost'' = None
   \<and> EnhancedMemStorage_updateRecurringInstance mem_standup ''e1'' 0 ''ghost'' 1710147600000
         noUpdates = (mem_standup, None)
   \<and> SupabaseStorage_getEvent db_standup ''ghost'' = None
   \<and> SupabaseStorage_updateRecurringInstance db_standup ''e1'' ''x1'' 0 ''ghost''
         1710147600000 noUpdates = Inr (db_standup, None)
   \<and> MemStorage_getEvent mem_standup ''m1'' = Some standup
   \<and> EnhancedMemStorage_updateRecurringInstance mem_standup ''e1'' 0 ''m1'' 1710147600000
         noUpdates = (mem_standup_modified, Some (modified_0311 ''e1''))
   \<and> SupabaseStorage_getEvent db_standup ''m1'' = Some standup
   \<and> ''e1'' \<notin> eid ` set (eventRows db_standup)
   \<and> ''x1'' \<notin> xid ` set (exceptionRows db_standup)
   \<and> SupabaseStorage_updateRecurringInstance db_standup ''e1'' ''x1'' 0 ''m1'' 1710147600000
         noUpdates = Inr (db_standup_modified, Some (modified_0311 ''e1''))
   \<and> startDate (modified_0311 ''e1'') = nullish (uStartDate noUpdates) 1710147600000"
proof -
  have g1: "MemStorage_getEvent mem_standup ''ghost'' = None"
    by (simp add: MemStorage_getEvent_def Map_get_def mem_standup_def)
  have g2: "SupabaseStorage_getEvent db_standup ''ghost'' = None"
    by (simp add: SupabaseStorage_getEvent_def db_standup_def standup_def)
  have p1: "MemStorage_getEvent mem_standup ''m1'' = Some standup"
    by (simp add: MemStorage_getEvent_def Map_get_def mem_standup_def)
  have p2: "SupabaseStorage_getEvent db_standup ''m1'' = Some standup
              \<and> ''e1'' \<notin> eid ` set (eventRows db_standup)
              \<and> ''x1'' \<notin> xid ` set (exceptionRows db_standup)"
    by (simp add: SupabaseStorage_getEvent_def db_standup_def standup_def)
  note missing = C8_update_instance_contract[where m = mem_standup and p = "''ghost''"
      and s = db_standup and uuid = "''e1''" and ei = "''e1''" and xi = "''x1''" and now = 0
      and d = 1710147600000 and u = noUpdates]
  note found = C8_update_instance_contract[where m = mem_standup and p = "''m1''"
      and s = db_standup and uuid = "''e1''" and ei = "''e1''" and xi = "''x1''" and now = 0
      and d = 1710147600000 and u = noUpdates and parent = standup]
  have a: "EnhancedMemStorage_updateRecurringInstance mem_standup ''e1'' 0 ''ghost''
             1710147600000 noUpdates = (mem_standup, None)"
    using missing g1 by blast
  have b: "SupabaseStorage_updateRecurringInstance db_standup ''e1'' ''x1'' 0 ''ghost''
             1710147600000 noUpdates = Inr (db_standup, None)"
    using missing g2 by blast
  obtain s' ev where c: "SupabaseStorage_updateRecurringInstance db_standup ''e1'' ''x1'' 0
         ''m1'' 1710147600000 noUpdates = Inr (s', Some ev)"
      "startDate ev = nullish (uStartDate noUpdates) 1710147600000"
    using found p2 by blast
  then have "ev = modified_0311 ''e1''" using db_update_standup by simp
  then show ?thesis
    using g1 g2 p1 p2 a b c(2) db_update_standup mem_update_standup by simp
qed

text \<open>
  C8 as stated fails: with no start date in the updates, the new event starts on
  the occurrence date and not on the start date of the parent, and its
  recurrence pattern is null and not that of the parent.
\<close>

theorem C8_counterexample:
  "SupabaseStorage_updateRecurringInstance db_standup ''e1'' ''x1'' 0 ''m1'' 1710147600000
     noUpdates = Inr (db_standup_modified, Some (modified_0311 ''e1''))
   \<and> SupabaseStorage_getEvent db_standup ''m1'' = Some standup
   \<and> uStartDate noUpdates = None \<and> uRecurringPattern noUpdates = None
   \<and> startDate (modified_0311 ''e1'') \<noteq> startDate standup
   \<and> recurringPattern (modified_0311 ''e1'') \<noteq> recurringPattern standup"
  using db_update_standup
  by (simp add: SupabaseStorage_getEvent_def db_standup_def modified_0311_def standup_def
        noUpdates_def)

subsection \<open>C9: the two steppers\<close>

text \<open>
  C9, as the code has it. Both steppers add one day for \<open>daily\<close> and seven days
  for \<open>weekly\<close> and for any pattern they do not know. For \<open>monthly\<close> and
  \<open>yearly\<close> the stepper of the database backend (date-fns) returns the date in
  the next month, or in the same month of the next year, on the same day of the
  month at the same time of day, and on the last day of that month when it has
  no such day. The stepper of the memory backend (\<open>setMonth\<close>, \<open>setFullYear\<close>)
  returns the same date when the day of the month exists there, and otherwise
  runs over into the following month by the number of days in excess. So the
  two agree on every input but a monthly step from a day that the next month
  lacks and a yearly step from 29 February.
\<close>

theorem C9_steppers:
  fixes t :: int
  defines "Ym \<equiv> YearFromTime t + (MonthFromTime t + 1) div 12"
    and "Mm \<equiv> (MonthFromTime t + 1) mod 12"
    and "Yy \<equiv> YearFromTime t + 1"
    and "My \<equiv> MonthFromTime t"
  shows
  "EnhancedMemStorage_getNextRecurrenceDate t (Some ''daily'') = t + msPerDay
   \<and> SupabaseStorage_getNextRecurrenceDate t (Some ''daily'') = t + msPerDay
   \<and> EnhancedMemStorage_getNextRecurrenceDate t (Some ''weekly'') = t + 7 * msPerDay
   \<and> SupabaseStorage_getNextRecurrenceDate t (Some ''weekly'') = t + 7 * msPerDay
   \<and> (p \<noteq> Some ''daily'' \<and> p \<noteq> Some ''weekly'' \<and> p \<noteq> Some ''monthly''
        \<and> p \<noteq> Some ''yearly'' \<longrightarrow>
        EnhancedMemStorage_getNextRecurrenceDate t p = t + 7 * msPerDay
        \<and> SupabaseStorage_getNextRecurrenceDate t p = t + 7 * msPerDay)
   \<and> SupabaseStorage_getNextRecurrenceDate t (Some ''monthly'') = clampedDate Ym Mm t
   \<and> YearFromTime (clampedDate Ym Mm t) = Ym
   \<and> MonthFromTime (clampedDate Ym Mm t) = Mm
   \<and> DateFromTime (clampedDate Ym Mm t)
        = min (DateFromTime t) (daysInMonth (leapDays Ym) Mm)
   \<and> TimeWithinDay (clampedDate Ym Mm t) = TimeWithinDay t
   \<and> EnhancedMemStorage_getNextRecurrenceDate t (Some ''monthly'')
        = clampedDate Ym Mm t
            + (DateFromTime t - min (DateFromTime t) (daysInMonth (leapDays Ym) Mm))
              * msPerDay
   \<and> SupabaseStorage_getNextRecurrenceDate t (Some ''yearly'') = clampedDate Yy My t
   \<and> YearFromTime (clampedDate Yy My t) = Yy
   \<and> MonthFromTime (clampedDate Yy My t) = My
   \<and> DateFromTime (clampedDate Yy My t)
        = min (DateFromTime t) (daysInMonth (leapDays Yy) My)
   \<and> TimeWithinDay (clampedDate Yy My t) = TimeWithinDay t
   \<and> EnhancedMemStorage_getNextRecurrenceDate t (Some ''yearly'')
        = clampedDate Yy My t
            + (DateFromTime t - min (DateFromTime t) (daysInMonth (leapDays Yy) My))
              * msPerDay"
proof -
  have daily: "EnhancedMemStorage_getNextRecurrenceDate t (Some ''daily'') = t + msPerDay"
    "SupabaseStorage_getNextRecurrenceDate t (Some ''daily'') = t + msPerDay"
    unfolding EnhancedMemStorage_getNextRecurrenceDate_def
      SupabaseStorage_getNextRecurrenceDate_def
    by (simp_all add: setDate_shift addDays_shift)
  have weekly: "EnhancedMemStorage_getNextRecurrenceDate t (Some ''weekly'') = t + 7 * msPerDay"
    "SupabaseStorage_getNextRecurrenceDate t (Some ''weekly'') = t + 7 * msPerDay"
    unfolding EnhancedMemStorage_getNextRecurrenceDate_def
      SupabaseStorage_getNextRecurrenceDate_def
    by (simp_all add: setDate_shift addWeeks_shift)
  have other: "EnhancedMemStorage_getNextRecurrenceDate t p = t + 7 * msPerDay
        \<and> SupabaseStorage_getNextRecurrenceDate t p = t + 7 * msPerDay"
    if "p \<noteq> Some ''daily'' \<and> p \<noteq> Some ''weekly'' \<and> p \<noteq> Some ''monthly''
        \<and> p \<noteq> Some ''yearly''"
    using that
    unfolding EnhancedMemStorage_getNextRecurrenceDate_def
      SupabaseStorage_getNextRecurrenceDate_def
    by (simp add: setDate_shift addWeeks_shift)
  have mm: "0 \<le> Mm" "Mm \<le> 11" unfolding Mm_def by (rule mod12_bounds)+
  have my: "0 \<le> My" "My \<le> 11" unfolding My_def by (rule MonthFromTime_bounds)+
  have sm: "SupabaseStorage_getNextRecurrenceDate t (Some ''monthly'') = clampedDate Ym Mm t"
    unfolding SupabaseStorage_monthly clampedDate_def Ym_def Mm_def ..
  have sy: "SupabaseStorage_getNextRecurrenceDate t (Some ''yearly'') = clampedDate Yy My t"
    unfolding SupabaseStorage_yearly clampedDate_def Yy_def My_def ..
  have em: "EnhancedMemStorage_getNextRecurrenceDate t (Some ''monthly'')
        = clampedDate Ym Mm t
            + (DateFromTime t - min (DateFromTime t) (daysInMonth (leapDays Ym) Mm))
              * msPerDay"
    unfolding EnhancedMemStorage_monthly Ym_def[symmetric] Mm_def[symmetric]
    by (rule overflow_days)
  have ey: "EnhancedMemStorage_getNextRecurrenceDate t (Some ''yearly'')
        = clampedDate Yy My t
            + (DateFromTime t - min (DateFromTime t) (daysInMonth (leapDays Yy) My))
              * msPerDay"
    unfolding EnhancedMemStorage_yearly Yy_def[symmetric] My_def[symmetric]
    by (rule overflow_days)
  show ?thesis
    using daily weekly other sm sy em ey clampedDate_fields[OF mm] clampedDate_fields[OF my]
    by blast
qed

theorem C9_witness:
  "Some ''fortnightly'' \<noteq> Some ''daily'' \<and> Some ''fortnightly'' \<noteq> Some ''weekly''
   \<and> Some ''fortnightly'' \<noteq> Some ''monthly'' \<and> Some ''fortnightly'' \<noteq> Some ''yearly''
   \<and> EnhancedMemStorage_getNextRecurrenceDate 1706659200000 (Some ''fortnightly'')
       = 1706659200000 + 7 * msPerDay
   \<and> SupabaseStorage_getNextRecurrenceDate 1706659200000 (Some ''fortnightly'')
       = 1706659200000 + 7 * msPerDay"
  using C9_steppers[where t = 1706659200000 and p = "Some ''fortnightly''"] by simp

text \<open>
  C9 as stated fails: the two steppers differ on the monthly step from
  2024-01-31 (1706659200000). The memory backend gives 2024-03-02, the database
  backend 2024-02-29.
\<close>

theorem C9_counterexample:
  "format_yyyy_MM_dd 1706659200000 = ''2024-01-31''
   \<and> format_yyyy_MM_dd (EnhancedMemStorage_getNextRecurrenceDate 1706659200000
                          (Some ''monthly'')) = ''2024-03-02''
   \<and> format_yyyy_MM_dd (SupabaseStorage_getNextRecurrenceDate 1706659200000
                          (Some ''monthly'')) = ''2024-02-29''
   \<and> EnhancedMemStorage_getNextRecurrenceDate 1706659200000 (Some ''monthly'')
       \<noteq> SupabaseStorage_getNextRecurrenceDate 1706659200000 (Some ''monthly'')"
  by code_simp

subsection \<open>C10: the occurrences are counted from the start of the window\<close>

text \<open>
  C10, as the code has it. When the series starts before the window, the cursor
  of either generator starts at the start of the window: every occurrence
  emitted lies a whole number of steps after the start of the window, and its
  id is made of the id of the master and of that instant. The first occurrence
  emitted is the one at the start of the window when the start of the window
  lies before the end of the series and its day carries no exception; when its
  day carries one the generator skips it like any other.
\<close>

theorem C10_window_anchored_grid:
  assumes "startDate b < S"
  shows
  "(\<forall>e \<in> set (SupabaseStorage_generateRecurringInstances b S E xs).
      (\<exists>k. startDate e
              = ((\<lambda>t. SupabaseStorage_getNextRecurrenceDate t (recurringPattern b)) ^^ k) S)
      \<and> eid e = eid b @ ''-recur-'' @ format_yyyy_MM_dd (startDate e))
   \<and> (isBefore S (SupabaseStorage_seriesEndDate b E)
        \<and> (\<forall>ex \<in> set xs. xType ex = ''deleted'' \<or> xType ex = ''modified''
               \<longrightarrow> format_yyyy_MM_dd (exceptionDate ex) \<noteq> format_yyyy_MM_dd S)
       \<longrightarrow> (\<exists>rest. SupabaseStorage_generateRecurringInstances b S E xs
                      = SupabaseStorage_instance b S # rest))
   \<and> (\<forall>e \<in> set (EnhancedMemStorage_generateRecurringInstances b S E dd md).
      (\<exists>k. startDate e
              = ((\<lambda>t. EnhancedMemStorage_getNextRecurrenceDate t (recurringPattern b)) ^^ k) S)
      \<and> eid e = eid b @ ''-recur-'' @ string_of_int (startDate e))
   \<and> (isBefore S (EnhancedMemStorage_seriesEndDate b E)
        \<and> toDateString S \<notin> dd \<and> toDateString S \<notin> md
       \<longrightarrow> (\<exists>rest. EnhancedMemStorage_generateRecurringInstances b S E dd md
                      = EnhancedMemStorage_instance b S # rest))"
proof -
  have c: "max (startDate b) S = S" using assms by simp
  have db_all: "(\<exists>k. startDate e
              = ((\<lambda>t. SupabaseStorage_getNextRecurrenceDate t (recurringPattern b)) ^^ k) S)
      \<and> eid e = eid b @ ''-recur-'' @ format_yyyy_MM_dd (startDate e)"
    if "e \<in> set (SupabaseStorage_generateRecurringInstances b S E xs)" for e
  proof -
    note em = SupabaseStorage_generated_emitted[OF that, unfolded c SupabaseStorage_emitted_def]
    from em have i: "e = SupabaseStorage_instance b (startDate e)" by simp
    have "eid e = eid b @ ''-recur-'' @ format_yyyy_MM_dd (startDate e)"
      using arg_cong[OF i, of eid] by (simp only: SupabaseStorage_instance_fields)
    then show ?thesis using em by blast
  qed
  have db_first: "\<exists>rest. SupabaseStorage_generateRecurringInstances b S E xs
                      = SupabaseStorage_instance b S # rest"
    if "isBefore S (SupabaseStorage_seriesEndDate b E)
        \<and> (\<forall>ex \<in> set xs. xType ex = ''deleted'' \<or> xType ex = ''modified''
               \<longrightarrow> format_yyyy_MM_dd (exceptionDate ex) \<noteq> format_yyyy_MM_dd S)"
  proof -
    have "format_yyyy_MM_dd S
            \<notin> set (map (\<lambda>ex. format_yyyy_MM_dd (exceptionDate ex))
                      (filter (\<lambda>ex. xType ex = ''deleted'') xs))"
      and "format_yyyy_MM_dd S
            \<notin> set (map (\<lambda>ex. format_yyyy_MM_dd (exceptionDate ex))
                      (filter (\<lambda>ex. xType ex = ''modified'') xs))"
      using that by auto
    then show ?thesis
      unfolding SupabaseStorage_generateRecurringInstances_def Let_def c
      using SupabaseStorage_loop_first that by blast
  qed
  have mem_all: "(\<exists>k. startDate e
              = ((\<lambda>t. EnhancedMemStorage_getNextRecurrenceDate t (recurringPattern b)) ^^ k) S)
      \<and> eid e = eid b @ ''-recur-'' @ string_of_int (startDate e)"
    if "e \<in> set (EnhancedMemStorage_generateRecurringInstances b S E dd md)" for e
  proof -
    note em = EnhancedMemStorage_loop_emitted[OF that[unfolded
          EnhancedMemStorage_generateRecurringInstances_def c],
        unfolded EnhancedMemStorage_emitted_def]
    from em have i: "e = EnhancedMemStorage_instance b (startDate e)" by simp
    have "eid e = eid b @ ''-recur-'' @ string_of_int (startDate e)"
      using arg_cong[OF i, of eid] by (simp only: EnhancedMemStorage_instance_fields)
    then show ?thesis using em by blast
  qed
  have mem_first: "\<exists>rest. EnhancedMemStorage_generateRecurringInstances b S E dd md
                      = EnhancedMemStorage_instance b S # rest"
    if "isBefore S (EnhancedMemStorage_seriesEndDate b E)
        \<and> toDateString S \<notin> dd \<and> toDateString S \<notin> md"
    unfolding EnhancedMemStorage_generateRecurringInstances_def c
    using EnhancedMemStorage_loop_first that by blast
  show ?thesis using db_all db_first mem_all mem_first by blast
qed

theorem C10_witness:
  "startDate standup < 1709683200000
   \<and> isBefore 1709683200000 (SupabaseStorage_seriesEndDate standup 1711065600000)
   \<and> format_yyyy_MM_dd (exceptionDate (deleted_0311 ''x1''))
       \<noteq> format_yyyy_MM_dd 1709683200000
   \<and> SupabaseStorage_generateRecurringInstances standup 1709683200000 1711065600000
        [deleted_0311 ''x1'']
       = SupabaseStorage_instance standup 1709683200000
           # [occurrence_db ''m1-recur-2024-03-13'' 1710288000000,
              occurrence_db ''m1-recur-2024-03-20'' 1710892800000]
   \<and> isBefore 1709683200000 (EnhancedMemStorage_seriesEndDate standup 1711065600000)
   \<and> toDateString 1709683200000 \<notin> {''Mon Mar 11 2024''}
   \<and> EnhancedMemStorage_generateRecurringInstances standup 1709683200000 1711065600000
        {''Mon Mar 11 2024''} {}
       = EnhancedMemStorage_instance standup 1709683200000
           # [occurrence_db ''m1-recur-1710288000000'' 1710288000000,
              occurrence_db ''m1-recur-1710892800000'' 1710892800000]
   \<and> occurrence_db ''m1-recur-2024-03-13'' 1710288000000
       \<in> set (SupabaseStorage_generateRecurringInstances standup 1709683200000
                 1711065600000 [deleted_0311 ''x1''])
   \<and> eid (occurrence_db ''m1-recur-2024-03-13'' 1710288000000)
       = eid standup @ ''-recur-'' @ format_yyyy_MM_dd 1710288000000
   \<and> SupabaseStorage_getNextRecurrenceDate 1709683200000 (recurringPattern standup)
       = 1710288000000
   \<and> WeekDay (startDate standup) = 1 \<and> WeekDay 1709683200000 = 3"
proof -
  have h: "startDate standup < 1709683200000" by (simp add: standup_def)
  have el: "occurrence_db ''m1-recur-2024-03-13'' 1710288000000
       \<in> set (SupabaseStorage_generateRecurringInstances standup 1709683200000
                 1711065600000 [deleted_0311 ''x1''])"
    unfolding db_generate_anchored by simp
  have nx: "SupabaseStorage_getNextRecurrenceDate 1709683200000 (recurringPattern standup)
              = 1710288000000"
    by (simp add: SupabaseStorage_getNextRecurrenceDate_def addWeeks_shift standup_def
          msPerDay_def)
  note th = C10_window_anchored_grid[OF h, where E = 1711065600000
      and xs = "[deleted_0311 ''x1'']" and dd = "{''Mon Mar 11 2024''}" and md = "{}"]
  have b1: "isBefore 1709683200000 (SupabaseStorage_seriesEndDate standup 1711065600000)"
    by (simp add: isBefore_def SupabaseStorage_seriesEndDate_def standup_def)
  have k1: "format_yyyy_MM_dd (exceptionDate (deleted_0311 ''x1''))
              \<noteq> format_yyyy_MM_dd 1709683200000"
    by code_simp
  have b2: "isBefore 1709683200000 (EnhancedMemStorage_seriesEndDate standup 1711065600000)"
    by (simp add: isBefore_def EnhancedMemStorage_seriesEndDate_def standup_def)
  have k2: "toDateString 1709683200000 \<notin> {''Mon Mar 11 2024''}"
    by code_simp
  have w: "WeekDay (startDate standup) = 1 \<and> WeekDay 1709683200000 = 3"
    by code_simp
  obtain r1 where r1: "SupabaseStorage_generateRecurringInstances standup 1709683200000
        1711065600000 [deleted_0311 ''x1''] = SupabaseStorage_instance standup 1709683200000 # r1"
    using th b1 k1 by auto
  obtain r2 where r2: "EnhancedMemStorage_generateRecurringInstances standup 1709683200000
        1711065600000 {''Mon Mar 11 2024''} {}
        = EnhancedMemStorage_instance standup 1709683200000 # r2"
    using th b2 k2 by auto
  have e1: "r1 = [occurrence_db ''m1-recur-2024-03-13'' 1710288000000,
              occurrence_db ''m1-recur-2024-03-20'' 1710892800000]"
    using r1 unfolding db_generate_anchored by simp
  have e2: "r2 = [occurrence_db ''m1-recur-1710288000000'' 1710288000000,
              occurrence_db ''m1-recur-1710892800000'' 1710892800000]"
    using r2 unfolding mem_generate_anchored by simp
  have id13: "eid (occurrence_db ''m1-recur-2024-03-13'' 1710288000000)
       = eid standup @ ''-recur-'' @ format_yyyy_MM_dd 1710288000000"
    using th el by (simp add: occurrence_db_def)
  show ?thesis using h b1 k1 b2 k2 w r1 r2 e1 e2 el nx id13 by simp
qed

text \<open>
  C10 as stated fails when the day on which the window opens carries an
  exception: with the occurrence of 2024-03-11 deleted and the window opening on
  2024-03-11 00:00, the first occurrence emitted starts on 2024-03-18 00:00.
\<close>

theorem C10_counterexample:
  "startDate standup < 1710115200000
   \<and> SupabaseStorage_generateRecurringInstances standup 1710115200000 1711065600000
        [deleted_0311 ''x1'']
       = [occurrence_db ''m1-recur-2024-03-18'' 1710720000000]
   \<and> startDate (occurrence_db ''m1-recur-2024-03-18'' 1710720000000) \<noteq> 1710115200000"
  using db_generate_anchored_on_deleted_day
  by (simp add: standup_def occurrence_db_def)

end
